theory Spec2Isabelle
  imports Complex_Main
begin

section \<open>JavaScript values\<close>

text \<open>
  Request bodies, form data and validated payloads are JavaScript values. An object is
  the list of its own properties; a property that is missing reads as \<open>undefined\<close>.
  A \<open>Date\<close> is the clock reading it holds; a body parsed from JSON never holds one.
  A string is the list of its characters, so \<open>length\<close> is the JavaScript \<open>.length\<close>
  for text whose characters fit one \<open>char\<close> each.
\<close>

datatype jsval =
    JUndefined
  | JNull
  | JBool bool
  | JNum rat
  | JStr string
  | JDate nat
  | JArr "jsval list"
  | JObj "(string \<times> jsval) list"

text \<open>\<open>data[key]\<close> and \<open>key in data\<close> on an object's property list.\<close>

definition get_prop :: "(string \<times> jsval) list \<Rightarrow> string \<Rightarrow> jsval" where
  "get_prop kvs k = (case map_of kvs k of None \<Rightarrow> JUndefined | Some v \<Rightarrow> v)"

definition has_key :: "(string \<times> jsval) list \<Rightarrow> string \<Rightarrow> bool" where
  "has_key kvs k = (map_of kvs k \<noteq> None)"

text \<open>\<open>data[key] = v\<close>: overwrite the property in place, or add it at the end.\<close>

fun set_prop :: "(string \<times> jsval) list \<Rightarrow> string \<Rightarrow> jsval \<Rightarrow> (string \<times> jsval) list" where
  "set_prop [] k v = [(k, v)]"
| "set_prop ((k', v') # kvs) k v =
     (if k' = k then (k, v) # kvs else (k', v') # set_prop kvs k v)"

text \<open>The result of \<open>Number(s)\<close>.\<close>

datatype jsnum = NaN | Finite rat | PosInfinity | NegInfinity

definition isNaN :: "jsnum \<Rightarrow> bool" where
  "isNaN n = (n = NaN)"

section \<open>The environment: built-ins and libraries the repository calls\<close>

text \<open>
  The code calls functions that are not part of the repository: the built-in \<open>Number\<close>,
  the format checks behind zod's \<open>.email()\<close> and \<open>.url()\<close>, zod's default error map
  (the message of an issue that carries no message of its own), the collation under
  which the storage engine compares the keys of a unique index, and the error code the
  engine reports once the key space of an auto-increment column is used up. They are
  parameters of the model: a theorem stated for an environment \<open>e\<close> holds for each choice
  of them, and only the evaluations on sample data fix them to the reference
  environment defined further down.
\<close>

datatype zcode =
    invalid_type string string
  | too_small nat
  | invalid_string string
  | invalid_enum_value "string list" string
  | invalid_literal
  | invalid_union

record env =
  js_Number :: "string \<Rightarrow> jsnum"
  isEmail :: "string \<Rightarrow> bool"
  isURL :: "string \<Rightarrow> bool"
  errorMap :: "zcode \<Rightarrow> string"
  collation :: "string \<Rightarrow> string"
  autoinc_exhausted :: string

section \<open>The validation library (zod 3), as far as the schemas use it\<close>

datatype zissue = ZIssue (code: zcode) (path: "string list") (message: string)

datatype zcheck =
    Min nat "string option"
  | Email "string option"
  | Url "string option"

datatype zschema =
    ZString "zcheck list"
  | ZEnum "string list" "string option"
  | ZLiteral string
  | ZOptional zschema
  | ZDefault zschema jsval
  | ZUnion zschema zschema

datatype zobject = ZObject "(string \<times> zschema) list"

text \<open>A parse returns \<open>OK value\<close>, \<open>DIRTY value\<close> (a value with issues) or \<open>INVALID\<close>.\<close>

datatype zresult = OK jsval | DIRTY jsval | INVALID

fun getParsedType :: "jsval \<Rightarrow> string" where
  "getParsedType JUndefined = ''undefined''"
| "getParsedType JNull = ''null''"
| "getParsedType (JBool b) = ''boolean''"
| "getParsedType (JNum r) = ''number''"
| "getParsedType (JStr s) = ''string''"
| "getParsedType (JDate t) = ''date''"
| "getParsedType (JArr xs) = ''array''"
| "getParsedType (JObj kvs) = ''object''"

text \<open>\<open>joinValues\<close>: the options of an enum as \<open>'a' | 'b'\<close>.\<close>

fun joinValues :: "string list \<Rightarrow> string" where
  "joinValues [] = []"
| "joinValues [v] = [CHR 0x27] @ v @ [CHR 0x27]"
| "joinValues (v # vs) = [CHR 0x27] @ v @ [CHR 0x27] @ '' | '' @ joinValues vs"

text \<open>An issue's message: the one given with the check or schema, else the error map's.\<close>

definition mk_issue :: "env \<Rightarrow> string option \<Rightarrow> zcode \<Rightarrow> string list \<Rightarrow> zissue" where
  "mk_issue e m c p = ZIssue c p (case m of Some t \<Rightarrow> t | None \<Rightarrow> errorMap e c)"

fun check_issue :: "env \<Rightarrow> string list \<Rightarrow> string \<Rightarrow> zcheck \<Rightarrow> zissue list" where
  "check_issue e p s (Min n m) =
     (if length s < n then [mk_issue e m (too_small n) p] else [])"
| "check_issue e p s (Email m) =
     (if \<not> isEmail e s then [mk_issue e m (invalid_string ''email'') p] else [])"
| "check_issue e p s (Url m) =
     (if \<not> isURL e s then [mk_issue e m (invalid_string ''url'') p] else [])"

text \<open>
  \<open>schema._parse\<close>. A string of the wrong type aborts; a failed check only marks the
  result dirty and the remaining checks still run. A union returns its first valid
  option, else its first dirty one with that option's issues, else one
  \<open>invalid_union\<close> issue.
\<close>

fun parse :: "env \<Rightarrow> zschema \<Rightarrow> string list \<Rightarrow> jsval \<Rightarrow> zresult \<times> zissue list" where
  "parse e (ZString cs) p d =
     (case d of
        JStr s \<Rightarrow>
          (let iss = concat (map (check_issue e p s) cs)
           in (if iss = [] then OK d else DIRTY d, iss))
      | _ \<Rightarrow> (INVALID, [mk_issue e None (invalid_type ''string'' (getParsedType d)) p]))"
| "parse e (ZEnum vs m) p d =
     (case d of
        JStr s \<Rightarrow>
          (if s \<in> set vs then (OK d, [])
           else (INVALID, [mk_issue e m (invalid_enum_value vs s) p]))
      | _ \<Rightarrow> (INVALID, [mk_issue e m (invalid_type (joinValues vs) (getParsedType d)) p]))"
| "parse e (ZLiteral v) p d =
     (if d = JStr v then (OK d, []) else (INVALID, [mk_issue e None invalid_literal p]))"
| "parse e (ZOptional s) p d =
     (if d = JUndefined then (OK JUndefined, []) else parse e s p d)"
| "parse e (ZDefault s v) p d =
     parse e s p (if d = JUndefined then v else d)"
| "parse e (ZUnion a b) p d =
     (case parse e a p d of
        (OK x, _) \<Rightarrow> (OK x, [])
      | (ra, ia) \<Rightarrow>
          (case parse e b p d of
             (OK y, _) \<Rightarrow> (OK y, [])
           | (rb, ib) \<Rightarrow>
               (case ra of
                  DIRTY x \<Rightarrow> (ra, ia)
                | _ \<Rightarrow>
                    (case rb of
                       DIRTY y \<Rightarrow> (rb, ib)
                     | _ \<Rightarrow> (INVALID, [mk_issue e None invalid_union p])))))"

text \<open>
  \<open>ParseStatus.mergeObjectSync\<close>: the first aborted field aborts the object; a dirty
  field makes it dirty; a key enters the result when its value is defined or the key
  was in the input.
\<close>

fun mergeObjectSync ::
  "(string \<times> zresult \<times> bool) list \<Rightarrow> bool \<Rightarrow> (string \<times> jsval) list \<Rightarrow> zresult" where
  "mergeObjectSync [] isDirty final = (if isDirty then DIRTY (JObj final) else OK (JObj final))"
| "mergeObjectSync ((k, INVALID, alwaysSet) # ps) isDirty final = INVALID"
| "mergeObjectSync ((k, DIRTY v, alwaysSet) # ps) isDirty final =
     mergeObjectSync ps True (if v \<noteq> JUndefined \<or> alwaysSet then final @ [(k, v)] else final)"
| "mergeObjectSync ((k, OK v, alwaysSet) # ps) isDirty final =
     mergeObjectSync ps isDirty (if v \<noteq> JUndefined \<or> alwaysSet then final @ [(k, v)] else final)"

text \<open>
  \<open>ZodObject._parse\<close> under the default \<open>strip\<close> policy: only the keys of the shape are
  read, each is parsed at path \<open>[key]\<close>, and all their issues are collected before the
  results are merged.
\<close>

fun parse_object :: "env \<Rightarrow> zobject \<Rightarrow> jsval \<Rightarrow> zresult \<times> zissue list" where
  "parse_object e (ZObject shape) d =
     (case d of
        JObj kvs \<Rightarrow>
          (let pairs = map (\<lambda>(k, s). (k, parse e s [k] (get_prop kvs k))) shape
           in (mergeObjectSync (map (\<lambda>(k, r, iss). (k, r, has_key kvs k)) pairs) False [],
               concat (map (\<lambda>(k, r, iss). iss) pairs)))
      | _ \<Rightarrow> (INVALID, [mk_issue e None (invalid_type ''object'' (getParsedType d)) []]))"

text \<open>\<open>schema.partial()\<close>: every field schema wrapped in an optional.\<close>

fun partial :: "zobject \<Rightarrow> zobject" where
  "partial (ZObject shape) = ZObject (map (\<lambda>(k, s). (k, ZOptional s)) shape)"

text \<open>
  \<open>schema.parseAsync\<close>: the value when the result is valid; otherwise it throws a
  \<open>ZodError\<close> with the issues, or a plain \<open>Error\<close> when there are none.
\<close>

datatype thrown = ZodError "zissue list" | Error string

definition parseAsync :: "env \<Rightarrow> zobject \<Rightarrow> jsval \<Rightarrow> thrown + jsval" where
  "parseAsync e schema d =
     (case parse_object e schema d of
        (OK v, iss) \<Rightarrow> Inr v
      | (r, iss) \<Rightarrow>
          (if iss = [] then Inl (Error ''Validation failed but no issues detected.'')
           else Inl (ZodError iss)))"

section \<open>The schemas\<close>

text \<open>The backend's \<open>userSchema\<close> and \<open>userUpdateSchema\<close>, which the API validates with.\<close>

definition userSchema :: zobject where
  "userSchema = ZObject
     [(''name'', ZString [Min 2 (Some ''Name must be at least 2 characters long'')]),
      (''email'', ZString [Email (Some ''Invalid email address'')]),
      (''avatar'', ZOptional (ZString [Url (Some ''Avatar must be a valid URL'')])),
      (''role'', ZDefault (ZEnum [''admin'', ''user''] None) (JStr ''user'')),
      (''status'', ZDefault (ZEnum [''active'', ''inactive''] None) (JStr ''active''))]"

definition userUpdateSchema :: zobject where
  "userUpdateSchema = partial userSchema"

text \<open>The frontend's \<open>userSchema\<close> and \<open>userUpdateSchema\<close>, which the form validates with.\<close>

definition userSchema_frontend :: zobject where
  "userSchema_frontend = ZObject
     [(''name'', ZString [Min 2 (Some ''Nome deve ter pelo menos 2 caracteres'')]),
      (''email'', ZString [Email (Some (''Email inv'' @ [CHR 0xE1] @ ''lido''))]),
      (''avatar'',
         ZUnion (ZOptional (ZString [Url (Some (''URL inv'' @ [CHR 0xE1] @ ''lida''))]))
                (ZLiteral [])),
      (''role'',
         ZDefault (ZEnum [''admin'', ''user''] (Some ''Papel deve ser admin ou user''))
                  (JStr ''user'')),
      (''status'',
         ZDefault (ZEnum [''active'', ''inactive''] (Some ''Status deve ser active ou inactive''))
                  (JStr ''active''))]"

definition userUpdateSchema_frontend :: zobject where
  "userUpdateSchema_frontend = partial userSchema_frontend"

section \<open>Responses and the validation middleware\<close>

record user =
  id' :: int
  name :: string
  email :: string
  avatar :: "string option"
  role :: string
  status :: string
  createdAt :: "nat option"
  updatedAt :: "nat option"

text \<open>
  A response body: nothing, \<open>{message}\<close>, \<open>{message, errors: [{path, message}, ...]}\<close>,
  a row, the list of rows, or \<open>{id}\<close>.
\<close>

datatype json_body =
    NoBody
  | Message string
  | ValidationError string "(string \<times> string) list"
  | User user
  | Users "user list"
  | ReturningId int

datatype response = Response (code: nat) (payload: json_body)

text \<open>\<open>err.path.join('.')\<close>\<close>

fun join_dot :: "string list \<Rightarrow> string" where
  "join_dot [] = []"
| "join_dot [x] = x"
| "join_dot (x # xs) = x @ ''.'' @ join_dot xs"

text \<open>
  \<open>validateRequest(schema)\<close>: on success the request body is replaced by the validated
  data and the handler runs (\<open>Next\<close>); on a \<open>ZodError\<close> the middleware answers 400 with
  one \<open>{path, message}\<close> per issue; on any other error it answers 500.
\<close>

datatype middleware = Next jsval | Respond response

definition validateRequest :: "env \<Rightarrow> zobject \<Rightarrow> jsval \<Rightarrow> middleware" where
  "validateRequest e schema reqBody =
     (case parseAsync e schema reqBody of
        Inr validatedData \<Rightarrow> Next validatedData
      | Inl (ZodError errors) \<Rightarrow>
          Respond (Response 400
            (ValidationError ''Validation error''
               (map (\<lambda>err. (join_dot (path err), message err)) errors)))
      | Inl (Error m) \<Rightarrow> Respond (Response 500 (Message ''Internal server error'')))"

section \<open>The storage layer\<close>

text \<open>
  Modelled from the spec: the module \<open>db/index.js\<close>, the connection that the routes
  import as \<open>db\<close>, and the storage engine behind it are not among the sources. The
  operations below follow the persistence adapter of the specification (list, get by
  id, create, update and delete over one table, a duplicate key reported as an error of
  its own kind) on the table \<open>users\<close> as \<open>db/schema/users.js\<close> and the SQL script declare
  it: an auto-increment integer primary key, \<open>varchar(255)\<close> text columns (\<open>name\<close>,
  \<open>email\<close>, \<open>role\<close>, \<open>status\<close> not null, the last two with defaults), a unique index on
  \<open>email\<close>, and two timestamps that default to the time of the insert. The state also
  records whether the engine can be reached and the statements issued so far, so that
  "no storage call" is a property of the state. An insert that fails on a duplicate key
  still consumes its auto-increment value.
\<close>

datatype sql = SELECT | INSERT | UPDATE | DELETE

record db =
  rows :: "user list"
  auto_increment :: int
  online :: bool
  statements :: "sql list"

text \<open>What a storage call throws: an error with a \<open>code\<close>, or one without.\<close>

datatype failure = Coded string | Uncoded

definition issue :: "sql \<Rightarrow> db \<Rightarrow> db" where
  "issue q d = d\<lparr>statements := statements d @ [q]\<rparr>"

text \<open>
  \<open>eq(users.id, id)\<close>: an integer key equals the number \<open>id\<close>. A number that is not
  finite equals no key.
\<close>

definition id_eq :: "jsnum \<Rightarrow> int \<Rightarrow> bool" where
  "id_eq n i = (case n of Finite r \<Rightarrow> r = of_int i | _ \<Rightarrow> False)"

text \<open>
  The value a column takes from a property of the object given to \<open>values\<close> or \<open>set\<close>.
  An undefined property leaves the fallback: the column's default on insert, the row's
  value on update. A validated body holds only strings (and the handler adds one
  \<open>Date\<close>); any other value is answered with a failure.
\<close>

definition col_int :: "jsval \<Rightarrow> int \<Rightarrow> failure + int" where
  "col_int v fallback =
     (case v of
        JUndefined \<Rightarrow> Inr fallback
      | JNum r \<Rightarrow>
          (if of_int \<lfloor>r\<rfloor> = r \<and> 1 \<le> r \<and> r \<le> 2147483647 then Inr \<lfloor>r\<rfloor> else Inl Uncoded)
      | _ \<Rightarrow> Inl Uncoded)"

definition col_varchar_notnull :: "jsval \<Rightarrow> string option \<Rightarrow> failure + string" where
  "col_varchar_notnull v fallback =
     (case v of
        JUndefined \<Rightarrow>
          (case fallback of
             Some s \<Rightarrow> Inr s
           | None \<Rightarrow> Inl (Coded ''ER_NO_DEFAULT_FOR_FIELD''))
      | JNull \<Rightarrow> Inl (Coded ''ER_BAD_NULL_ERROR'')
      | JStr s \<Rightarrow> (if length s > 255 then Inl (Coded ''ER_DATA_TOO_LONG'') else Inr s)
      | _ \<Rightarrow> Inl Uncoded)"

definition col_varchar :: "jsval \<Rightarrow> string option \<Rightarrow> failure + string option" where
  "col_varchar v fallback =
     (case v of
        JUndefined \<Rightarrow> Inr fallback
      | JNull \<Rightarrow> Inr None
      | JStr s \<Rightarrow> (if length s > 255 then Inl (Coded ''ER_DATA_TOO_LONG'') else Inr (Some s))
      | _ \<Rightarrow> Inl Uncoded)"

definition col_timestamp :: "jsval \<Rightarrow> nat option \<Rightarrow> failure + nat option" where
  "col_timestamp v fallback =
     (case v of
        JUndefined \<Rightarrow> Inr fallback
      | JNull \<Rightarrow> Inr None
      | JDate t \<Rightarrow> Inr (Some t)
      | _ \<Rightarrow> Inl Uncoded)"

definition assign ::
  "(string \<times> jsval) list \<Rightarrow> int \<Rightarrow> string option \<Rightarrow> string option \<Rightarrow> string option \<Rightarrow>
   string option \<Rightarrow> string option \<Rightarrow> nat option \<Rightarrow> nat option \<Rightarrow> failure + user" where
  "assign kvs i n m a r s c u =
     (case col_int (get_prop kvs ''id'') i of Inl f \<Rightarrow> Inl f | Inr i' \<Rightarrow>
     (case col_varchar_notnull (get_prop kvs ''name'') n of Inl f \<Rightarrow> Inl f | Inr n' \<Rightarrow>
     (case col_varchar_notnull (get_prop kvs ''email'') m of Inl f \<Rightarrow> Inl f | Inr m' \<Rightarrow>
     (case col_varchar (get_prop kvs ''avatar'') a of Inl f \<Rightarrow> Inl f | Inr a' \<Rightarrow>
     (case col_varchar_notnull (get_prop kvs ''role'') r of Inl f \<Rightarrow> Inl f | Inr r' \<Rightarrow>
     (case col_varchar_notnull (get_prop kvs ''status'') s of Inl f \<Rightarrow> Inl f | Inr s' \<Rightarrow>
     (case col_timestamp (get_prop kvs ''createdAt'') c of Inl f \<Rightarrow> Inl f | Inr c' \<Rightarrow>
     (case col_timestamp (get_prop kvs ''updatedAt'') u of Inl f \<Rightarrow> Inl f | Inr u' \<Rightarrow>
        Inr \<lparr>id' = i', name = n', email = m', avatar = a', role = r', status = s',
             createdAt = c', updatedAt = u'\<rparr>))))))))"

text \<open>A row clashes with a table when it repeats a primary key or an email key.\<close>

definition clash :: "env \<Rightarrow> user \<Rightarrow> user list \<Rightarrow> bool" where
  "clash e x others =
     (\<exists>y \<in> set others. id' y = id' x \<or> collation e (email y) = collation e (email x))"

text \<open>\<open>db.select().from(users)\<close> and \<open>db.select().from(users).where(eq(users.id, id))\<close>\<close>

definition db_select :: "db \<Rightarrow> (failure + user list) \<times> db" where
  "db_select d =
     (if online d then Inr (rows d) else Inl (Coded ''ECONNREFUSED''), issue SELECT d)"

definition db_select_where :: "db \<Rightarrow> jsnum \<Rightarrow> (failure + user list) \<times> db" where
  "db_select_where d n =
     (if online d then Inr (filter (\<lambda>x. id_eq n (id' x)) (rows d))
      else Inl (Coded ''ECONNREFUSED''),
      issue SELECT d)"

text \<open>\<open>db.insert(users).values(v).$returningId()\<close>, at engine time \<open>now\<close>.\<close>

definition db_insert :: "env \<Rightarrow> nat \<Rightarrow> db \<Rightarrow> jsval \<Rightarrow> (failure + int) \<times> db" where
  "db_insert e now d v =
     (let d1 = issue INSERT d in
      if \<not> online d then (Inl (Coded ''ECONNREFUSED''), d1)
      else case v of
        JObj kvs \<Rightarrow>
          (case assign kvs (auto_increment d) None None None (Some ''user'') (Some ''active'')
                  (Some now) (Some now) of
             Inl f \<Rightarrow> (Inl f, d1)
           | Inr x \<Rightarrow>
               if get_prop kvs ''id'' = JUndefined \<and> auto_increment d > 2147483647
               then (Inl (Coded (autoinc_exhausted e)), d1)
               else
                 (let d2 = d1\<lparr>auto_increment := max (auto_increment d) (id' x + 1)\<rparr> in
                  if clash e x (rows d) then (Inl (Coded ''ER_DUP_ENTRY''), d2)
                  else (Inr (id' x), d2\<lparr>rows := rows d @ [x]\<rparr>)))
      | _ \<Rightarrow> (Inl Uncoded, d1))"

text \<open>
  \<open>db.update(users).set(v).where(eq(users.id, id))\<close>: the matching rows are rewritten one
  after the other, each checked against the table as it then stands; any failure
  leaves the table as it was. \<open>updated_at\<close> is declared \<open>ON UPDATE CURRENT_TIMESTAMP\<close>:
  a row that changes without an explicit value for it takes the engine time.
\<close>

definition update_row :: "nat \<Rightarrow> (string \<times> jsval) list \<Rightarrow> user \<Rightarrow> failure + user" where
  "update_row now kvs x =
     (case assign kvs (id' x) (Some (name x)) (Some (email x)) (avatar x) (Some (role x))
             (Some (status x)) (createdAt x) (updatedAt x) of
        Inl f \<Rightarrow> Inl f
      | Inr x' \<Rightarrow>
          Inr (if get_prop kvs ''updatedAt'' = JUndefined \<and> x' \<noteq> x
               then x'\<lparr>updatedAt := Some now\<rparr> else x'))"

fun update_rows ::
  "env \<Rightarrow> (user \<Rightarrow> bool) \<Rightarrow> (user \<Rightarrow> failure + user) \<Rightarrow> user list \<Rightarrow> user list \<Rightarrow>
   failure + user list" where
  "update_rows e m f seen [] = Inr seen"
| "update_rows e m f seen (x # xs) =
     (if m x then
        (case f x of
           Inl err \<Rightarrow> Inl err
         | Inr x' \<Rightarrow>
             if clash e x' (seen @ xs) then Inl (Coded ''ER_DUP_ENTRY'')
             else update_rows e m f (seen @ [x']) xs)
      else update_rows e m f (seen @ [x]) xs)"

definition db_update :: "env \<Rightarrow> nat \<Rightarrow> db \<Rightarrow> jsval \<Rightarrow> jsnum \<Rightarrow> (failure + unit) \<times> db" where
  "db_update e now d v n =
     (let d1 = issue UPDATE d in
      if \<not> online d then (Inl (Coded ''ECONNREFUSED''), d1)
      else case v of
        JObj kvs \<Rightarrow>
          (case update_rows e (\<lambda>x. id_eq n (id' x)) (update_row now kvs) [] (rows d) of
             Inl f \<Rightarrow> (Inl f, d1)
           | Inr rs \<Rightarrow> (Inr (), d1\<lparr>rows := rs\<rparr>))
      | _ \<Rightarrow> (Inl Uncoded, d1))"

text \<open>\<open>db.delete(users).where(eq(users.id, id))\<close>\<close>

definition db_delete :: "db \<Rightarrow> jsnum \<Rightarrow> (failure + unit) \<times> db" where
  "db_delete d n =
     (let d1 = issue DELETE d in
      if \<not> online d then (Inl (Coded ''ECONNREFUSED''), d1)
      else (Inr (), d1\<lparr>rows := filter (\<lambda>x. \<not> id_eq n (id' x)) (rows d)\<rparr>))"

section \<open>The routes of \<open>/api/users\<close>\<close>

definition msg_internal :: string where
  "msg_internal = ''Erro interno do servidor''"

definition msg_invalid_id :: string where
  "msg_invalid_id = ''Formato de ID inv'' @ [CHR 0xE1] @ ''lido''"

definition msg_not_found :: string where
  "msg_not_found = ''Usu'' @ [CHR 0xE1] @ ''rio n'' @ [CHR 0xE3] @ ''o encontrado''"

definition msg_duplicate :: string where
  "msg_duplicate = ''Email j'' @ [CHR 0xE1] @ '' existe''"

text \<open>The \<open>catch\<close> blocks: every failure is a 500, but for \<open>POST\<close> and \<open>PUT\<close> a duplicate key.\<close>

definition catch_500 :: "failure \<Rightarrow> response" where
  "catch_500 err = Response 500 (Message msg_internal)"

definition catch_409 :: "failure \<Rightarrow> response" where
  "catch_409 err =
     (if err = Coded ''ER_DUP_ENTRY'' then Response 409 (Message msg_duplicate)
      else Response 500 (Message msg_internal))"

text \<open>\<open>router.get('/')\<close>\<close>

definition router_get :: "db \<Rightarrow> response \<times> db" where
  "router_get d =
     (case db_select d of
        (Inl err, d1) \<Rightarrow> (catch_500 err, d1)
      | (Inr allUsers, d1) \<Rightarrow> (Response 200 (Users allUsers), d1))"

text \<open>\<open>router.get('/:id')\<close>; \<open>param\<close> is \<open>req.params.id\<close>.\<close>

definition router_get_id :: "env \<Rightarrow> db \<Rightarrow> string \<Rightarrow> response \<times> db" where
  "router_get_id e d param =
     (let n = js_Number e param in
      if isNaN n then (Response 400 (Message msg_invalid_id), d)
      else case db_select_where d n of
        (Inl err, d1) \<Rightarrow> (catch_500 err, d1)
      | (Inr [], d1) \<Rightarrow> (Response 404 (Message msg_not_found), d1)
      | (Inr (u # us), d1) \<Rightarrow> (Response 200 (User u), d1))"

text \<open>\<open>router.post('/', validateRequest(userSchema), ...)\<close>; \<open>now\<close> is the clock.\<close>

definition router_post :: "env \<Rightarrow> nat \<Rightarrow> db \<Rightarrow> jsval \<Rightarrow> response \<times> db" where
  "router_post e now d reqBody =
     (case validateRequest e userSchema reqBody of
        Respond r \<Rightarrow> (r, d)
      | Next body \<Rightarrow>
          (case db_insert e now d body of
             (Inl err, d1) \<Rightarrow> (catch_409 err, d1)
           | (Inr i, d1) \<Rightarrow> (Response 201 (ReturningId i), d1)))"

text \<open>\<open>{...req.body, updatedAt: new Date()}\<close>; a validated body is an object.\<close>

definition with_updatedAt :: "jsval \<Rightarrow> nat \<Rightarrow> jsval" where
  "with_updatedAt body now =
     JObj (set_prop (case body of JObj kvs \<Rightarrow> kvs | _ \<Rightarrow> []) ''updatedAt'' (JDate now))"

text \<open>\<open>router.put('/:id', validateRequest(userUpdateSchema), ...)\<close>\<close>

definition router_put :: "env \<Rightarrow> nat \<Rightarrow> db \<Rightarrow> string \<Rightarrow> jsval \<Rightarrow> response \<times> db" where
  "router_put e now d param reqBody =
     (case validateRequest e userUpdateSchema reqBody of
        Respond r \<Rightarrow> (r, d)
      | Next body \<Rightarrow>
          (let n = js_Number e param in
           if isNaN n then (Response 400 (Message msg_invalid_id), d)
           else case db_select_where d n of
             (Inl err, d1) \<Rightarrow> (catch_409 err, d1)
           | (Inr [], d1) \<Rightarrow> (Response 404 (Message msg_not_found), d1)
           | (Inr (x # xs), d1) \<Rightarrow>
               (case db_update e now d1 (with_updatedAt body now) n of
                  (Inl err, d2) \<Rightarrow> (catch_409 err, d2)
                | (Inr _, d2) \<Rightarrow>
                    (case db_select_where d2 n of
                       (Inl err, d3) \<Rightarrow> (catch_409 err, d3)
                     | (Inr [], d3) \<Rightarrow> (Response 200 NoBody, d3)
                     | (Inr (u # us), d3) \<Rightarrow> (Response 200 (User u), d3)))))"

text \<open>\<open>router.delete('/:id')\<close>\<close>

definition router_delete :: "env \<Rightarrow> db \<Rightarrow> string \<Rightarrow> response \<times> db" where
  "router_delete e d param =
     (let n = js_Number e param in
      if isNaN n then (Response 400 (Message msg_invalid_id), d)
      else case db_select_where d n of
        (Inl err, d1) \<Rightarrow> (catch_500 err, d1)
      | (Inr [], d1) \<Rightarrow> (Response 404 (Message msg_not_found), d1)
      | (Inr (x # xs), d1) \<Rightarrow>
          (case db_delete d1 n of
             (Inl err, d2) \<Rightarrow> (catch_500 err, d2)
           | (Inr _, d2) \<Rightarrow> (Response 204 NoBody, d2)))"

section \<open>The form of \<open>UserForm.jsx\<close>\<close>

text \<open>JavaScript truthiness, \<open>String.prototype.trim\<close> and \<open>s.replace(" ", '+')\<close>.\<close>

fun truthy :: "jsval \<Rightarrow> bool" where
  "truthy JUndefined = False"
| "truthy JNull = False"
| "truthy (JBool b) = b"
| "truthy (JNum r) = (r \<noteq> 0)"
| "truthy (JStr s) = (s \<noteq> [])"
| "truthy (JDate t) = True"
| "truthy (JArr xs) = True"
| "truthy (JObj kvs) = True"

definition is_space :: "char \<Rightarrow> bool" where
  "is_space c =
     (c \<in> set [CHR 0x09, CHR 0x0A, CHR 0x0B, CHR 0x0C, CHR 0x0D, CHR 0x20, CHR 0xA0])"

definition trim :: "string \<Rightarrow> string" where
  "trim s = rev (dropWhile is_space (rev (dropWhile is_space s)))"

fun replace_first :: "char \<Rightarrow> char \<Rightarrow> string \<Rightarrow> string" where
  "replace_first a b [] = []"
| "replace_first a b (c # cs) = (if c = a then b # cs else c # replace_first a b cs)"

definition avatar_template :: string where
  "avatar_template = ''https://ui-avatars.com/api/?name=''"

definition msg_save_failed :: string where
  "msg_save_failed = ''Erro ao salvar usu'' @ [CHR 0xE1] @ ''rio. Por favor, tente novamente.''"

text \<open>
  \<open>onSubmit(data)\<close> up to its call of the user service: the data it sends, or the
  banner set by its \<open>catch\<close> when reading the avatar or the name throws a \<open>TypeError\<close>.
  The user service itself (\<open>api/userService\<close>) is not among the sources; the model
  records the call and its arguments.
\<close>

datatype service_call = createUser jsval | updateUser string jsval

datatype submission =
    Calls service_call
  | Banner string
  | FieldErrors "zissue list"
  | Unhandled string

definition onSubmit :: "bool \<Rightarrow> string \<Rightarrow> jsval \<Rightarrow> submission" where
  "onSubmit isEditMode param data =
     (case data of
        JObj kvs \<Rightarrow>
          (let send = (\<lambda>kvs'. Calls (if isEditMode then updateUser param (JObj kvs')
                                     else createUser (JObj kvs')));
               fill = (case get_prop kvs ''name'' of
                         JStr n \<Rightarrow>
                           send (set_prop kvs ''avatar''
                                   (JStr (avatar_template @ replace_first CHR '' '' CHR ''+'' n)))
                       | _ \<Rightarrow> Banner msg_save_failed)
           in case get_prop kvs ''avatar'' of
                JStr a \<Rightarrow> (if a = [] \<or> trim a = [] then fill else send kvs)
              | v \<Rightarrow> (if \<not> truthy v then fill else Banner msg_save_failed))
      | _ \<Rightarrow> Banner msg_save_failed)"

text \<open>
  \<open>handleSubmit(onSubmit)\<close> with \<open>zodResolver\<close>: the form values are validated first
  (the partial schema in edit mode) and \<open>onSubmit\<close> runs only on the validated data.
  For a refused form the model keeps the issues as zod raised them; how the resolver
  turns them into the messages shown at the fields is not modelled.
\<close>

definition handleSubmit :: "env \<Rightarrow> bool \<Rightarrow> string \<Rightarrow> jsval \<Rightarrow> submission" where
  "handleSubmit e isEditMode param formValues =
     (case parseAsync e (if isEditMode then partial userSchema_frontend else userSchema_frontend)
             formValues of
        Inr data \<Rightarrow> onSubmit isEditMode param data
      | Inl (ZodError errors) \<Rightarrow> FieldErrors errors
      | Inl (Error m) \<Rightarrow> Unhandled m)"

section \<open>A reference environment\<close>

text \<open>
  One concrete environment, used to run the model on concrete requests. Its \<open>Number\<close>
  reads a string as ECMAScript's \<open>StringToNumber\<close> does (white space trimmed, the empty
  string as 0, \<open>Infinity\<close>, binary, octal and hexadecimal integers, signed decimals with
  fraction and exponent) and keeps the exact value of the literal, without rounding it
  to a binary64 number. Its email check is the pattern of zod 3.22. Its URL check is a
  stand-in for \<open>new URL\<close>: it accepts \<open>http\<close> and \<open>https\<close> URLs with a host of
  alphanumeric labels, the last one alphabetic, and a path of unreserved characters, all
  of which \<open>new URL\<close> accepts, and it refuses every other string; it is run below on
  such URLs, on the empty string and on blank strings, where it answers as \<open>new URL\<close>
  does. Its error map holds zod's English messages, and its collation ignores the case of
  ASCII letters.
\<close>

definition is_digit :: "char \<Rightarrow> bool" where
  "is_digit c = (c \<in> set ''0123456789'')"

definition is_alpha :: "char \<Rightarrow> bool" where
  "is_alpha c = (c \<in> set ''abcdefghijklmnopqrstuvwxyzABCDEFGHIJKLMNOPQRSTUVWXYZ'')"

text \<open>The value of a digit of base up to 16, if it is one.\<close>

definition digit_of :: "char \<Rightarrow> nat option" where
  "digit_of c =
     (let k = (of_char c :: nat) in
      if 48 \<le> k \<and> k \<le> 57 then Some (k - 48)
      else if 97 \<le> k \<and> k \<le> 102 then Some (k - 87)
      else if 65 \<le> k \<and> k \<le> 70 then Some (k - 55)
      else None)"

fun digits_in :: "nat \<Rightarrow> nat \<Rightarrow> string \<Rightarrow> nat option" where
  "digits_in base acc [] = Some acc"
| "digits_in base acc (c # cs) =
     (case digit_of c of
        None \<Rightarrow> None
      | Some k \<Rightarrow> (if k < base then digits_in base (base * acc + k) cs else None))"

definition radix_literal :: "nat \<Rightarrow> string \<Rightarrow> jsnum" where
  "radix_literal base ds =
     (if ds = [] then NaN
      else case digits_in base 0 ds of None \<Rightarrow> NaN | Some k \<Rightarrow> Finite (of_nat k))"

definition scale10 :: "nat \<Rightarrow> int \<Rightarrow> rat" where
  "scale10 m x = (if 0 \<le> x then of_nat (m * 10 ^ nat x) else of_nat m / of_nat (10 ^ nat (- x)))"

text \<open>An exponent part: nothing, or \<open>e\<close>, an optional sign and at least one digit.\<close>

definition exponent_of :: "string \<Rightarrow> int option" where
  "exponent_of s =
     (case s of
        [] \<Rightarrow> Some 0
      | c # cs \<Rightarrow>
          (if c = CHR ''e'' \<or> c = CHR ''E'' then
             (let neg = (case cs of d # _ \<Rightarrow> d = CHR ''-'' | [] \<Rightarrow> False);
                  ds = (case cs of d # r \<Rightarrow> (if d = CHR ''-'' \<or> d = CHR ''+'' then r else cs)
                        | [] \<Rightarrow> [])
              in if ds = [] then None
                 else case digits_in 10 0 ds of
                   None \<Rightarrow> None
                 | Some k \<Rightarrow> Some (if neg then - int k else int k))
           else None))"

definition decimal_literal :: "string \<Rightarrow> rat option" where
  "decimal_literal s =
     (let ip = takeWhile is_digit s; r1 = dropWhile is_digit s;
          dot = (case r1 of c # _ \<Rightarrow> c = CHR ''.'' | [] \<Rightarrow> False);
          fp = (if dot then takeWhile is_digit (tl r1) else []);
          r2 = (if dot then dropWhile is_digit (tl r1) else r1)
      in if ip = [] \<and> fp = [] then None
         else case (digits_in 10 0 (ip @ fp), exponent_of r2) of
           (Some m, Some x) \<Rightarrow> Some (scale10 m (x - int (length fp)))
         | _ \<Rightarrow> None)"

definition StringToNumber :: "string \<Rightarrow> jsnum" where
  "StringToNumber s =
     (let t = trim s in
      if t = [] then Finite 0
      else if take 2 t = ''0x'' \<or> take 2 t = ''0X'' then radix_literal 16 (drop 2 t)
      else if take 2 t = ''0o'' \<or> take 2 t = ''0O'' then radix_literal 8 (drop 2 t)
      else if take 2 t = ''0b'' \<or> take 2 t = ''0B'' then radix_literal 2 (drop 2 t)
      else
        (let neg = (hd t = CHR ''-'');
             u = (if hd t = CHR ''-'' \<or> hd t = CHR ''+'' then tl t else t)
         in if u = ''Infinity'' then (if neg then NegInfinity else PosInfinity)
            else case decimal_literal u of
              None \<Rightarrow> NaN
            | Some r \<Rightarrow> Finite (if neg then - r else r)))"

text \<open>
  The email pattern: no leading dot, no two dots in a row, a local part of letters,
  digits and \<open>_'+-.\<close> that does not end in a dot or quote, one \<open>@\<close>, then labels of
  letters, digits and hyphens (not leading) and a last label of at least two letters.
\<close>

fun split_on :: "char \<Rightarrow> string \<Rightarrow> string list" where
  "split_on c [] = [[]]"
| "split_on c (x # xs) =
     (case split_on c xs of
        [] \<Rightarrow> [[x]]
      | w # ws \<Rightarrow> (if x = c then [] # w # ws else (x # w) # ws))"

definition is_label :: "string \<Rightarrow> bool" where
  "is_label w =
     (case w of
        [] \<Rightarrow> False
      | c # cs \<Rightarrow> (is_alpha c \<or> is_digit c)
                 \<and> list_all (\<lambda>x. is_alpha x \<or> is_digit x \<or> x = CHR ''-'') cs)"

definition email_pattern :: "string \<Rightarrow> bool" where
  "email_pattern s =
     (case split_on CHR ''@'' s of
        [l, dm] \<Rightarrow>
          l \<noteq> [] \<and> hd s \<noteq> CHR ''.'' \<and> list_all (\<lambda>w. w \<noteq> []) (tl (split_on CHR ''.'' l))
          \<and> list_all (\<lambda>x. is_alpha x \<or> is_digit x \<or> x \<in> set [CHR ''_'', CHR 0x27, CHR ''+'', CHR ''-'', CHR ''.'']) l
          \<and> (is_alpha (last l) \<or> is_digit (last l) \<or> last l \<in> set ''_+-'')
          \<and> (let ws = split_on CHR ''.'' dm in
               2 \<le> length ws \<and> list_all is_label (butlast ws)
               \<and> 2 \<le> length (last ws) \<and> list_all is_alpha (last ws))
      | _ \<Rightarrow> False)"

definition http_url :: "string \<Rightarrow> bool" where
  "http_url s =
     (let r = (if take 7 s = ''http://'' then Some (drop 7 s)
               else if take 8 s = ''https://'' then Some (drop 8 s) else None)
      in case r of
           None \<Rightarrow> False
         | Some t \<Rightarrow>
             (let h = takeWhile (\<lambda>c. c \<noteq> CHR ''/'') t; p = dropWhile (\<lambda>c. c \<noteq> CHR ''/'') t;
                  ws = split_on CHR ''.'' h
              in list_all (\<lambda>w. w \<noteq> [] \<and> list_all (\<lambda>c. is_alpha c \<or> is_digit c) w) ws
                 \<and> list_all is_alpha (last ws)
                 \<and> list_all (\<lambda>c. is_alpha c \<or> is_digit c \<or> c \<in> set ''/-._~'') p))"

fun show_nat :: "nat \<Rightarrow> string" where
  "show_nat n =
     (if n < 10 then [char_of (48 + n)] else show_nat (n div 10) @ [char_of (48 + n mod 10)])"

fun defaultErrorMap :: "zcode \<Rightarrow> string" where
  "defaultErrorMap (invalid_type expected received) =
     (if received = ''undefined'' then ''Required''
      else ''Expected '' @ expected @ '', received '' @ received)"
| "defaultErrorMap (too_small n) =
     ''String must contain at least '' @ show_nat n @ '' character(s)''"
| "defaultErrorMap (invalid_string v) = ''Invalid '' @ v"
| "defaultErrorMap (invalid_enum_value options received) =
     ''Invalid enum value. Expected '' @ joinValues options @ '', received ''
       @ [CHR 0x27] @ received @ [CHR 0x27]"
| "defaultErrorMap invalid_literal = ''Invalid literal value, expected ''
       @ [CHR 0x22, CHR 0x22]"
| "defaultErrorMap invalid_union = ''Invalid input''"

definition ascii_lower :: "char \<Rightarrow> char" where
  "ascii_lower c =
     (let k = (of_char c :: nat) in if 65 \<le> k \<and> k \<le> 90 then char_of (k + 32) else c)"

definition reference_env :: env where
  "reference_env =
     \<lparr>js_Number = StringToNumber, isEmail = email_pattern, isURL = http_url,
      errorMap = defaultErrorMap, collation = map ascii_lower,
      autoinc_exhausted = ''ER_AUTOINC_READ_FAILED''\<rparr>"

section \<open>Requests, field by field\<close>

text \<open>
  The constraints of the data model, stated on the value of one property: a name is a
  string of at least two characters, an email a string in email syntax, an avatar is
  absent or a URL, a role and a status are absent or one of their two values.
\<close>

definition schema_keys :: "string list" where
  "schema_keys = [''name'', ''email'', ''avatar'', ''role'', ''status'']"

definition name_ok :: "jsval \<Rightarrow> bool" where
  "name_ok v = (case v of JStr s \<Rightarrow> 2 \<le> length s | _ \<Rightarrow> False)"

definition email_ok :: "env \<Rightarrow> jsval \<Rightarrow> bool" where
  "email_ok e v = (case v of JStr s \<Rightarrow> isEmail e s | _ \<Rightarrow> False)"

definition avatar_ok :: "env \<Rightarrow> jsval \<Rightarrow> bool" where
  "avatar_ok e v = (case v of JUndefined \<Rightarrow> True | JStr s \<Rightarrow> isURL e s | _ \<Rightarrow> False)"

definition role_ok :: "jsval \<Rightarrow> bool" where
  "role_ok v = (v = JUndefined \<or> v = JStr ''admin'' \<or> v = JStr ''user'')"

definition status_ok :: "jsval \<Rightarrow> bool" where
  "status_ok v = (v = JUndefined \<or> v = JStr ''active'' \<or> v = JStr ''inactive'')"

definition field_ok :: "env \<Rightarrow> string \<Rightarrow> jsval \<Rightarrow> bool" where
  "field_ok e k v =
     (if k = ''name'' then name_ok v
      else if k = ''email'' then email_ok e v
      else if k = ''avatar'' then avatar_ok e v
      else if k = ''role'' then role_ok v
      else if k = ''status'' then status_ok v
      else True)"

text \<open>
  The offending fields of a create request (a required field is missing, or a value is
  invalid) and of an update request (a supplied value is invalid), in schema order.
\<close>

definition create_violations :: "env \<Rightarrow> (string \<times> jsval) list \<Rightarrow> string list" where
  "create_violations e kvs = filter (\<lambda>k. \<not> field_ok e k (get_prop kvs k)) schema_keys"

definition update_violations :: "env \<Rightarrow> (string \<times> jsval) list \<Rightarrow> string list" where
  "update_violations e kvs =
     filter (\<lambda>k. get_prop kvs k \<noteq> JUndefined \<and> \<not> field_ok e k (get_prop kvs k)) schema_keys"

definition valid_create :: "env \<Rightarrow> (string \<times> jsval) list \<Rightarrow> bool" where
  "valid_create e kvs =
     (name_ok (get_prop kvs ''name'') \<and> email_ok e (get_prop kvs ''email'')
      \<and> avatar_ok e (get_prop kvs ''avatar'') \<and> role_ok (get_prop kvs ''role'')
      \<and> status_ok (get_prop kvs ''status''))"

text \<open>The text values of a request fit their \<open>varchar(255)\<close> columns.\<close>

definition short :: "jsval \<Rightarrow> bool" where
  "short v = (case v of JStr s \<Rightarrow> length s \<le> 255 | _ \<Rightarrow> True)"

definition fits :: "(string \<times> jsval) list \<Rightarrow> bool" where
  "fits kvs = (short (get_prop kvs ''name'') \<and> short (get_prop kvs ''email'')
               \<and> short (get_prop kvs ''avatar''))"

definition str :: "jsval \<Rightarrow> string" where
  "str v = (case v of JStr s \<Rightarrow> s | _ \<Rightarrow> [])"

text \<open>
  The row a create request describes: the key \<open>i\<close>, the fields of the request, no
  avatar when none is given, the defaults for role and status, both timestamps \<open>now\<close>.
\<close>

definition new_row :: "nat \<Rightarrow> int \<Rightarrow> (string \<times> jsval) list \<Rightarrow> user" where
  "new_row now i kvs =
     \<lparr>id' = i, name = str (get_prop kvs ''name''), email = str (get_prop kvs ''email''),
      avatar = (case get_prop kvs ''avatar'' of JStr s \<Rightarrow> Some s | _ \<Rightarrow> None),
      role = (case get_prop kvs ''role'' of JStr s \<Rightarrow> s | _ \<Rightarrow> ''user''),
      status = (case get_prop kvs ''status'' of JStr s \<Rightarrow> s | _ \<Rightarrow> ''active''),
      createdAt = Some now, updatedAt = Some now\<rparr>"

text \<open>
  The row an update request makes of a row: the supplied fields replace the old ones,
  \<open>updatedAt\<close> becomes \<open>now\<close>, everything else stays.
\<close>

definition merge_fields :: "(string \<times> jsval) list \<Rightarrow> nat \<Rightarrow> user \<Rightarrow> user" where
  "merge_fields kvs now x =
     x\<lparr>name := (case get_prop kvs ''name'' of JStr s \<Rightarrow> s | _ \<Rightarrow> name x),
       email := (case get_prop kvs ''email'' of JStr s \<Rightarrow> s | _ \<Rightarrow> email x),
       avatar := (case get_prop kvs ''avatar'' of JStr s \<Rightarrow> Some s | _ \<Rightarrow> avatar x),
       role := (case get_prop kvs ''role'' of JStr s \<Rightarrow> s | _ \<Rightarrow> role x),
       status := (case get_prop kvs ''status'' of JStr s \<Rightarrow> s | _ \<Rightarrow> status x),
       updatedAt := Some now\<rparr>"

text \<open>The validated data of an acceptable create and update request.\<close>

definition validated_create :: "(string \<times> jsval) list \<Rightarrow> (string \<times> jsval) list" where
  "validated_create kvs =
     [(''name'', get_prop kvs ''name''), (''email'', get_prop kvs ''email'')]
     @ (if get_prop kvs ''avatar'' \<noteq> JUndefined \<or> has_key kvs ''avatar''
        then [(''avatar'', get_prop kvs ''avatar'')] else [])
     @ [(''role'', if get_prop kvs ''role'' = JUndefined then JStr ''user'' else get_prop kvs ''role''),
        (''status'', if get_prop kvs ''status'' = JUndefined then JStr ''active''
                     else get_prop kvs ''status'')]"

definition validated_update :: "(string \<times> jsval) list \<Rightarrow> (string \<times> jsval) list" where
  "validated_update kvs =
     concat (map (\<lambda>k. if get_prop kvs k \<noteq> JUndefined \<or> has_key kvs k
                       then [(k, get_prop kvs k)] else []) schema_keys)"

fun is_OK :: "zresult \<Rightarrow> bool" where
  "is_OK (OK v) = True"
| "is_OK (DIRTY v) = False"
| "is_OK INVALID = False"

definition paths :: "zissue list \<Rightarrow> string list" where
  "paths iss = map (\<lambda>i. join_dot (path i)) iss"

text \<open>
  What the form's schema lets through for one property: what the data model allows,
  and the empty string for the avatar.
\<close>

definition form_ok :: "env \<Rightarrow> string \<Rightarrow> jsval \<Rightarrow> bool" where
  "form_ok e k v = (field_ok e k v \<or> (k = ''avatar'' \<and> v = JStr []))"

text \<open>Two validation results agree: the same data, or a rejection on both sides.\<close>

definition same_verdict :: "thrown + jsval \<Rightarrow> thrown + jsval \<Rightarrow> bool" where
  "same_verdict a b =
     (case (a, b) of
        (Inr x, Inr y) \<Rightarrow> x = y
      | (Inl _, Inl _) \<Rightarrow> True
      | _ \<Rightarrow> False)"

section \<open>Sample data\<close>

definition empty_db :: db where
  "empty_db = \<lparr>rows = [], auto_increment = 1, online = True, statements = []\<rparr>"

definition ana :: "(string \<times> jsval) list" where
  "ana = [(''name'', JStr ''Ana Silva''), (''email'', JStr ''ana@x.com''),
          (''role'', JStr ''user''), (''status'', JStr ''active'')]"

definition ana_row :: user where
  "ana_row = \<lparr>id' = 1, name = ''Ana Silva'', email = ''ana@x.com'', avatar = None,
              role = ''user'', status = ''active'', createdAt = Some 100, updatedAt = Some 100\<rparr>"


definition ana_again :: "(string \<times> jsval) list" where
  "ana_again = [(''name'', JStr ''Ana Souza''), (''email'', JStr ''ana@x.com'')]"

definition ana_form :: "(string \<times> jsval) list" where
  "ana_form = [(''name'', JStr ''Ana Maria Silva''), (''email'', JStr ''ana@x.com''),
               (''avatar'', JStr [])]"

definition bia_update :: "(string \<times> jsval) list" where
  "bia_update = [(''name'', JStr ''Bia'')]"

definition ana_forged :: "(string \<times> jsval) list" where
  "ana_forged = ana @ [(''id'', JNum 99), (''createdAt'', JStr ''1999-01-01''),
                       (''updatedAt'', JStr ''1999-01-01'')]"

definition bia_forged :: "(string \<times> jsval) list" where
  "bia_forged = [(''name'', JStr ''Bia''), (''id'', JNum 7), (''createdAt'', JStr ''1999-01-01'')]"

definition long_email :: string where
  "long_email = replicate 250 CHR ''a'' @ ''@x.com''"

definition long_ana :: "(string \<times> jsval) list" where
  "long_ana = [(''name'', JStr ''Ana Silva''), (''email'', JStr long_email)]"

definition long_ana_again :: "(string \<times> jsval) list" where
  "long_ana_again = [(''name'', JStr ''Ana Souza''), (''email'', JStr long_email)]"

text \<open>The same storage state with the engine out of reach.\<close>

definition offline :: "db \<Rightarrow> db" where
  "offline d = d\<lparr>online := False\<rparr>"

definition ana_db :: db where
  "ana_db = \<lparr>rows = [ana_row], auto_increment = 2, online = True, statements = [INSERT]\<rparr>"

section \<open>The parser: a result is valid exactly when it raised no issue\<close>

lemma parse_no_issue_iff:
  "parse e s p d = (r, iss) \<Longrightarrow> (iss = [] \<longleftrightarrow> is_OK r)"
proof (induction e s p d arbitrary: r iss rule: parse.induct)
  case (1 e cs p d)
  then show ?case by (auto simp: Let_def split: jsval.splits if_splits)
next
  case (2 e vs m p d)
  then show ?case by (auto split: jsval.splits if_splits)
next
  case (3 e v p d)
  then show ?case by (auto split: if_splits)
next
  case (4 e s p d)
  then show ?case by (auto split: if_splits)
next
  case (5 e s v p d)
  then show ?case by (auto split: if_splits)
next
  case (6 e a b p d)
  then show ?case by (auto split: prod.splits zresult.splits)
qed

lemma merge_OK_iff:
  "is_OK (mergeObjectSync ps dirty final) \<longleftrightarrow> \<not> dirty \<and> list_all (\<lambda>x. is_OK (fst (snd x))) ps"
  by (induction ps dirty final rule: mergeObjectSync.induct) auto

lemma parse_object_JObj:
  "parse_object e (ZObject shape) (JObj kvs) =
     (mergeObjectSync
        (map (\<lambda>x. (fst x, fst (parse e (snd x) [fst x] (get_prop kvs (fst x))), has_key kvs (fst x)))
           shape) False [],
      concat (map (\<lambda>x. snd (parse e (snd x) [fst x] (get_prop kvs (fst x)))) shape))"
  by (simp add: case_prod_beta comp_def)

lemma parse_object_no_issue_iff:
  assumes "parse_object e sch d = (r, iss)"
  shows "iss = [] \<longleftrightarrow> is_OK r"
proof (cases sch)
  case (ZObject shape)
  show ?thesis
  proof (cases d)
    case (JObj kvs)
    have field: "snd (parse e s [k] v) = [] \<longleftrightarrow> is_OK (fst (parse e s [k] v))" for s k v
      using parse_no_issue_iff [of e s "[k]" v "fst (parse e s [k] v)" "snd (parse e s [k] v)"]
      by simp
    from assms show ?thesis
      unfolding ZObject JObj parse_object_JObj
      by (auto simp: merge_OK_iff list_all_iff field)
  qed (use assms ZObject in \<open>auto simp: mk_issue_def\<close>)
qed

text \<open>So \<open>parseAsync\<close> returns data or throws a \<open>ZodError\<close> with at least one issue.\<close>

lemma parseAsync_issues:
  assumes "snd (parse_object e sch d) \<noteq> []"
  shows "parseAsync e sch d = Inl (ZodError (snd (parse_object e sch d)))"
proof (cases "parse_object e sch d")
  case (Pair r iss)
  with assms parse_object_no_issue_iff [OF Pair] show ?thesis
    by (cases r) (auto simp: parseAsync_def)
qed

lemma parseAsync_cases:
  "(\<exists>v. parseAsync e sch d = Inr v)
   \<or> (\<exists>iss. iss \<noteq> [] \<and> parseAsync e sch d = Inl (ZodError iss))"
proof (cases "parse_object e sch d")
  case (Pair r iss)
  from parse_object_no_issue_iff [OF Pair] Pair show ?thesis
    by (cases r) (auto simp: parseAsync_def)
qed

section \<open>The issues of the API's schemas are the offending fields\<close>

lemma paths_simps [simp]: "paths (xs @ ys) = paths xs @ paths ys" "paths [] = []"
  by (simp_all add: paths_def)

lemma issues_name:
  "paths (snd (parse e (ZString [Min 2 m]) [k] v)) = (if name_ok v then [] else [k])"
  by (cases v) (auto simp: name_ok_def paths_def mk_issue_def)

lemma issues_email:
  "paths (snd (parse e (ZString [Email m]) [k] v)) = (if email_ok e v then [] else [k])"
  by (cases v) (auto simp: email_ok_def paths_def mk_issue_def)

lemma issues_avatar:
  "paths (snd (parse e (ZOptional (ZString [Url m])) [k] v)) = (if avatar_ok e v then [] else [k])"
  by (cases v) (auto simp: avatar_ok_def paths_def mk_issue_def)

lemma issues_role:
  "paths (snd (parse e (ZDefault (ZEnum [''admin'', ''user''] m) (JStr ''user'')) [k] v))
     = (if role_ok v then [] else [k])"
  by (cases v) (auto simp: role_ok_def paths_def mk_issue_def)

lemma issues_status:
  "paths (snd (parse e (ZDefault (ZEnum [''active'', ''inactive''] m) (JStr ''active'')) [k] v))
     = (if status_ok v then [] else [k])"
  by (cases v) (auto simp: status_ok_def paths_def mk_issue_def)

lemma paths_userSchema:
  "paths (snd (parse_object e userSchema (JObj kvs))) = create_violations e kvs"
  unfolding userSchema_def parse_object_JObj
  by (simp add: issues_name issues_email issues_avatar issues_role issues_status
      create_violations_def schema_keys_def field_ok_def del: parse.simps)

lemma issues_name_opt:
  "paths (snd (parse e (ZOptional (ZString [Min 2 m])) [k] v))
     = (if v \<noteq> JUndefined \<and> \<not> name_ok v then [k] else [])"
  by (cases v) (auto simp: name_ok_def paths_def mk_issue_def)

lemma issues_email_opt:
  "paths (snd (parse e (ZOptional (ZString [Email m])) [k] v))
     = (if v \<noteq> JUndefined \<and> \<not> email_ok e v then [k] else [])"
  by (cases v) (auto simp: email_ok_def paths_def mk_issue_def)

lemma issues_avatar_opt:
  "paths (snd (parse e (ZOptional (ZOptional (ZString [Url m]))) [k] v))
     = (if v \<noteq> JUndefined \<and> \<not> avatar_ok e v then [k] else [])"
  by (cases v) (auto simp: avatar_ok_def paths_def mk_issue_def)

lemma issues_role_opt:
  "paths (snd (parse e (ZOptional (ZDefault (ZEnum [''admin'', ''user''] m) (JStr ''user''))) [k] v))
     = (if v \<noteq> JUndefined \<and> \<not> role_ok v then [k] else [])"
  by (cases v) (auto simp: role_ok_def paths_def mk_issue_def)

lemma issues_status_opt:
  "paths (snd (parse e (ZOptional (ZDefault (ZEnum [''active'', ''inactive''] m) (JStr ''active'')))
       [k] v))
     = (if v \<noteq> JUndefined \<and> \<not> status_ok v then [k] else [])"
  by (cases v) (auto simp: status_ok_def paths_def mk_issue_def)

lemma paths_userUpdateSchema:
  "paths (snd (parse_object e userUpdateSchema (JObj kvs))) = update_violations e kvs"
  unfolding userUpdateSchema_def userSchema_def partial.simps parse_object_JObj
  by (simp add: issues_name_opt issues_email_opt issues_avatar_opt issues_role_opt
      issues_status_opt update_violations_def schema_keys_def field_ok_def del: parse.simps)




section \<open>Creating a user\<close>

lemma ok_name: "name_ok v \<Longrightarrow> parse e (ZString [Min 2 m]) p v = (OK v, [])"
  by (cases v) (auto simp: name_ok_def)

lemma ok_email: "email_ok e v \<Longrightarrow> parse e (ZString [Email m]) p v = (OK v, [])"
  by (cases v) (auto simp: email_ok_def)

lemma ok_avatar: "avatar_ok e v \<Longrightarrow> parse e (ZOptional (ZString [Url m])) p v = (OK v, [])"
  by (cases v) (auto simp: avatar_ok_def)

lemma ok_role:
  "role_ok v \<Longrightarrow> parse e (ZDefault (ZEnum [''admin'', ''user''] m) (JStr ''user'')) p v
     = (OK (if v = JUndefined then JStr ''user'' else v), [])"
  by (auto simp: role_ok_def)

lemma ok_status:
  "status_ok v \<Longrightarrow> parse e (ZDefault (ZEnum [''active'', ''inactive''] m) (JStr ''active'')) p v
     = (OK (if v = JUndefined then JStr ''active'' else v), [])"
  by (auto simp: status_ok_def)

lemma parseAsync_userSchema_valid:
  assumes "valid_create e kvs"
  shows "parseAsync e userSchema (JObj kvs) = Inr (JObj (validated_create kvs))"
proof -
  from assms have ok: "name_ok (get_prop kvs ''name'')" "email_ok e (get_prop kvs ''email'')"
      "avatar_ok e (get_prop kvs ''avatar'')" "role_ok (get_prop kvs ''role'')"
      "status_ok (get_prop kvs ''status'')"
    by (simp_all add: valid_create_def)
  have df: "get_prop kvs ''name'' \<noteq> JUndefined" "get_prop kvs ''email'' \<noteq> JUndefined"
    using ok by (auto simp: name_ok_def email_ok_def)
  show ?thesis
    unfolding parseAsync_def userSchema_def parse_object_JObj
    by (simp add: ok_name [OF ok(1)] ok_email [OF ok(2)] ok_avatar [OF ok(3)] ok_role [OF ok(4)]
        ok_status [OF ok(5)] df validated_create_def del: parse.simps)
qed

lemma get_validated_create:
  "get_prop (validated_create kvs) ''name'' = get_prop kvs ''name''"
  "get_prop (validated_create kvs) ''email'' = get_prop kvs ''email''"
  "get_prop (validated_create kvs) ''avatar'' = get_prop kvs ''avatar''"
  "get_prop (validated_create kvs) ''role'' =
     (if get_prop kvs ''role'' = JUndefined then JStr ''user'' else get_prop kvs ''role'')"
  "get_prop (validated_create kvs) ''status'' =
     (if get_prop kvs ''status'' = JUndefined then JStr ''active'' else get_prop kvs ''status'')"
  "get_prop (validated_create kvs) ''id'' = JUndefined"
  "get_prop (validated_create kvs) ''createdAt'' = JUndefined"
  "get_prop (validated_create kvs) ''updatedAt'' = JUndefined"
  by (simp_all add: validated_create_def get_prop_def)

lemma assign_validated_create:
  assumes "valid_create e kvs"
  shows "assign (validated_create kvs) i None None None (Some ''user'') (Some ''active'')
           (Some now) (Some now)
         = (if fits kvs then Inr (new_row now i kvs) else Inl (Coded ''ER_DATA_TOO_LONG''))"
proof -
  from assms obtain n m where nm: "get_prop kvs ''name'' = JStr n" "get_prop kvs ''email'' = JStr m"
    by (auto simp: valid_create_def name_ok_def email_ok_def split: jsval.splits)
  from assms have av: "get_prop kvs ''avatar'' = JUndefined \<or> (\<exists>a. get_prop kvs ''avatar'' = JStr a)"
    by (auto simp: valid_create_def avatar_ok_def split: jsval.splits)
  from assms have ro: "role_ok (get_prop kvs ''role'')" and st: "status_ok (get_prop kvs ''status'')"
    by (simp_all add: valid_create_def)
  show ?thesis
    unfolding assign_def get_validated_create
    using nm av ro st
    by (auto simp: col_int_def col_varchar_notnull_def col_varchar_def col_timestamp_def
        new_row_def str_def role_ok_def status_ok_def fits_def short_def)
qed

lemma router_post_valid:
  assumes "valid_create e kvs"
  shows "router_post e now d (JObj kvs) =
     (case db_insert e now d (JObj (validated_create kvs)) of
        (Inl err, d1) \<Rightarrow> (catch_409 err, d1)
      | (Inr i, d1) \<Rightarrow> (Response 201 (ReturningId i), d1))"
  by (simp add: router_post_def validateRequest_def parseAsync_userSchema_valid [OF assms])

lemma db_insert_validated:
  assumes "valid_create e kvs" "fits kvs" "online d" "auto_increment d \<le> 2147483647"
  shows "db_insert e now d (JObj (validated_create kvs)) =
     (if clash e (new_row now (auto_increment d) kvs) (rows d)
      then (Inl (Coded ''ER_DUP_ENTRY''),
            d\<lparr>auto_increment := auto_increment d + 1, statements := statements d @ [INSERT]\<rparr>)
      else (Inr (auto_increment d),
            d\<lparr>rows := rows d @ [new_row now (auto_increment d) kvs],
              auto_increment := auto_increment d + 1,
              statements := statements d @ [INSERT]\<rparr>))"
  using assms
  by (simp add: db_insert_def assign_validated_create get_validated_create issue_def new_row_def
      Let_def)

lemma post_created:
  assumes "valid_create e kvs" "fits kvs" "online d" "auto_increment d \<le> 2147483647"
    and "\<not> clash e (new_row now (auto_increment d) kvs) (rows d)"
  shows "router_post e now d (JObj kvs) =
     (Response 201 (ReturningId (auto_increment d)),
      d\<lparr>rows := rows d @ [new_row now (auto_increment d) kvs],
        auto_increment := auto_increment d + 1,
        statements := statements d @ [INSERT]\<rparr>)"
  using assms by (simp add: router_post_valid db_insert_validated)

lemma post_conflict:
  assumes "valid_create e kvs" "fits kvs" "online d" "auto_increment d \<le> 2147483647"
    and "clash e (new_row now (auto_increment d) kvs) (rows d)"
  shows "router_post e now d (JObj kvs) =
     (Response 409 (Message msg_duplicate),
      d\<lparr>auto_increment := auto_increment d + 1, statements := statements d @ [INSERT]\<rparr>)"
  using assms by (simp add: router_post_valid db_insert_validated catch_409_def)

lemma no_clash:
  assumes "\<forall>y \<in> set rs. id' y < i"
    and "\<forall>y \<in> set rs. collation e (email y) \<noteq> collation e (str (get_prop kvs ''email''))"
  shows "\<not> clash e (new_row now i kvs) rs"
  using assms by (auto simp: clash_def new_row_def)

text \<open>
  Claim C1, as the code has it. A create request that passes validation, fits the
  columns and brings an email that is not in the table yet (the engine reachable, the
  key space not used up) is answered with status 201 and the body \<open>{id}\<close>, the new
  system-assigned key and nothing else. The stored row has every field populated, with
  \<open>createdAt\<close> equal to \<open>updatedAt\<close>, and it is what \<open>GET /:id\<close> returns for that key.
\<close>

theorem post_returns_new_id:
  assumes "valid_create e kvs" "fits kvs" "online d" "auto_increment d \<le> 2147483647"
    and "\<forall>y \<in> set (rows d). id' y < auto_increment d"
    and "\<forall>y \<in> set (rows d). collation e (email y) \<noteq> collation e (str (get_prop kvs ''email''))"
  shows "router_post e now d (JObj kvs) =
           (Response 201 (ReturningId (auto_increment d)),
            d\<lparr>rows := rows d @ [new_row now (auto_increment d) kvs],
              auto_increment := auto_increment d + 1,
              statements := statements d @ [INSERT]\<rparr>)
         \<and> createdAt (new_row now (auto_increment d) kvs) = updatedAt (new_row now (auto_increment d) kvs)
         \<and> (\<forall>param. js_Number e param = Finite (of_int (auto_increment d)) \<longrightarrow>
               fst (router_get_id e (snd (router_post e now d (JObj kvs))) param)
                 = Response 200 (User (new_row now (auto_increment d) kvs)))"
proof -
  let ?x = "new_row now (auto_increment d) kvs"
  have nc: "\<not> clash e ?x (rows d)"
    using assms(5,6) by (rule no_clash)
  have post: "router_post e now d (JObj kvs) =
           (Response 201 (ReturningId (auto_increment d)),
            d\<lparr>rows := rows d @ [?x], auto_increment := auto_increment d + 1,
              statements := statements d @ [INSERT]\<rparr>)"
    using assms(1-4) nc by (rule post_created)
  have old: "filter (\<lambda>y. id_eq (Finite (of_int (auto_increment d))) (id' y)) (rows d) = []"
    using assms(5) by (auto simp: filter_empty_conv id_eq_def)
  have new: "id_eq (Finite (of_int (auto_increment d))) (id' ?x)"
    by (simp add: id_eq_def new_row_def)
  show ?thesis
    using assms(3) old new
    by (simp add: post router_get_id_def isNaN_def db_select_where_def issue_def)
       (simp add: new_row_def)
qed

theorem post_returns_new_id_witness:
  "router_post reference_env 100 empty_db (JObj ana) = (Response 201 (ReturningId 1), ana_db)
   \<and> fst (router_get_id reference_env ana_db ''1'') = Response 200 (User ana_row)"
proof -
  have v: "valid_create reference_env ana" by code_simp
  have f: "fits ana" by code_simp
  have o: "online empty_db" by code_simp
  have a: "auto_increment empty_db \<le> 2147483647" by code_simp
  have i: "\<forall>y \<in> set (rows empty_db). id' y < auto_increment empty_db"
    by (simp add: empty_db_def)
  have m: "\<forall>y \<in> set (rows empty_db).
      collation reference_env (email y) \<noteq> collation reference_env (str (get_prop ana ''email''))"
    by (simp add: empty_db_def)
  have k: "auto_increment empty_db = 1" by (simp add: empty_db_def)
  have n: "js_Number reference_env ''1'' = Finite (of_int 1)" by code_simp
  have r: "new_row 100 1 ana = ana_row" by code_simp
  have d: "empty_db\<lparr>rows := rows empty_db @ [ana_row], auto_increment := 2,
             statements := statements empty_db @ [INSERT]\<rparr> = ana_db"
    by (simp add: empty_db_def ana_db_def)
  note created = post_returns_new_id [OF v f o a i m, of 100, unfolded k]
  from created have p: "router_post reference_env 100 empty_db (JObj ana)
      = (Response 201 (ReturningId 1), ana_db)"
    by (simp add: r d)
  from created n
  have "fst (router_get_id reference_env (snd (router_post reference_env 100 empty_db (JObj ana)))
          ''1'') = Response 200 (User ana_row)"
    unfolding r by blast
  with p show ?thesis by simp
qed

text \<open>
  The claim as written fails: the body of the 201 response is \<open>{id: 1}\<close>, not the
  created row.
\<close>

theorem post_body_is_not_the_user:
  "payload (fst (router_post reference_env 100 empty_db (JObj ana))) = ReturningId 1
   \<and> rows (snd (router_post reference_env 100 empty_db (JObj ana))) = [ana_row]
   \<and> payload (fst (router_post reference_env 100 empty_db (JObj ana))) \<noteq> User ana_row"
  by code_simp

text \<open>
  Claim C2, as the code has it. A create request that passes validation is stored
  with the avatar it brought: no avatar (\<open>NULL\<close>) when the field is absent, the very
  string otherwise. The server derives no default avatar.
\<close>

theorem post_persists_avatar:
  assumes "valid_create e kvs" "fits kvs" "online d" "auto_increment d \<le> 2147483647"
    and "\<forall>y \<in> set (rows d). id' y < auto_increment d"
    and "\<forall>y \<in> set (rows d). collation e (email y) \<noteq> collation e (str (get_prop kvs ''email''))"
  shows "code (fst (router_post e now d (JObj kvs))) = 201
         \<and> (\<exists>x. rows (snd (router_post e now d (JObj kvs))) = rows d @ [x]
                \<and> avatar x = (case get_prop kvs ''avatar'' of JStr a \<Rightarrow> Some a | _ \<Rightarrow> None)
                \<and> (get_prop kvs ''avatar'' = JUndefined \<longrightarrow> avatar x = None))"
proof -
  have "\<not> clash e (new_row now (auto_increment d) kvs) (rows d)"
    using assms(5,6) by (rule no_clash)
  with assms(1-4) have "router_post e now d (JObj kvs) =
           (Response 201 (ReturningId (auto_increment d)),
            d\<lparr>rows := rows d @ [new_row now (auto_increment d) kvs],
              auto_increment := auto_increment d + 1,
              statements := statements d @ [INSERT]\<rparr>)"
    by (rule post_created)
  then show ?thesis by (simp add: new_row_def)
qed

theorem post_persists_avatar_witness:
  "code (fst (router_post reference_env 100 empty_db (JObj ana))) = 201
   \<and> (\<exists>x. rows (snd (router_post reference_env 100 empty_db (JObj ana))) = [x] \<and> avatar x = None)"
proof -
  have v: "valid_create reference_env ana" by code_simp
  have f: "fits ana" by code_simp
  have o: "online empty_db" by code_simp
  have a: "auto_increment empty_db \<le> 2147483647" by code_simp
  have i: "\<forall>y \<in> set (rows empty_db). id' y < auto_increment empty_db"
    by (simp add: empty_db_def)
  have m: "\<forall>y \<in> set (rows empty_db).
      collation reference_env (email y) \<noteq> collation reference_env (str (get_prop ana ''email''))"
    by (simp add: empty_db_def)
  have u: "get_prop ana ''avatar'' = JUndefined" by code_simp
  have e: "rows empty_db = []" by (simp add: empty_db_def)
  from post_persists_avatar [OF v f o a i m, of 100] show ?thesis
    by (auto simp: u e)
qed

text \<open>
  The claim as written fails: a create request whose avatar is the empty string is
  refused with status 400 and nothing is stored.
\<close>

theorem post_empty_avatar_rejected:
  "router_post reference_env 100 empty_db (JObj (ana @ [(''avatar'', JStr [])]))
     = (Response 400
          (ValidationError ''Validation error'' [(''avatar'', ''Avatar must be a valid URL'')]),
        empty_db)"
  by code_simp

section \<open>Reading and deleting by id\<close>

lemma select_where_online:
  "online d \<Longrightarrow> db_select_where d n = (Inr (filter (\<lambda>x. id_eq n (id' x)) (rows d)), issue SELECT d)"
  by (simp add: db_select_where_def)

lemma issue_simps [simp]:
  "rows (issue q d) = rows d" "online (issue q d) = online d"
  "auto_increment (issue q d) = auto_increment d"
  "statements (issue q d) = statements d @ [q]"
  by (simp_all add: issue_def)

lemma delete_absent:
  assumes "\<not> isNaN (js_Number e param)" "online d"
    and "filter (\<lambda>x. id_eq (js_Number e param) (id' x)) (rows d) = []"
  shows "router_delete e d param = (Response 404 (Message msg_not_found), issue SELECT d)"
  using assms by (simp add: router_delete_def select_where_online)

lemma get_absent:
  assumes "\<not> isNaN (js_Number e param)" "online d"
    and "filter (\<lambda>x. id_eq (js_Number e param) (id' x)) (rows d) = []"
  shows "router_get_id e d param = (Response 404 (Message msg_not_found), issue SELECT d)"
  using assms by (simp add: router_get_id_def select_where_online)

lemma delete_present:
  assumes "\<not> isNaN (js_Number e param)" "online d"
    and "filter (\<lambda>x. id_eq (js_Number e param) (id' x)) (rows d) \<noteq> []"
  shows "router_delete e d param =
     (Response 204 NoBody,
      (issue DELETE (issue SELECT d))
        \<lparr>rows := filter (\<lambda>x. \<not> id_eq (js_Number e param) (id' x)) (rows d)\<rparr>)"
proof -
  from assms(3) obtain x xs where "filter (\<lambda>x. id_eq (js_Number e param) (id' x)) (rows d) = x # xs"
    by (cases "filter (\<lambda>x. id_eq (js_Number e param) (id' x)) (rows d)") auto
  with assms(1,2) show ?thesis
    by (simp add: router_delete_def select_where_online db_delete_def Let_def)
qed

text \<open>
  Claim C7. For an id parameter that reads as a finite number, with the engine
  reachable: when no row has that id, \<open>DELETE\<close> answers 404 and leaves the rows and the
  key counter as they were; when a row has it, \<open>DELETE\<close> answers 204 with an empty body
  and the table loses exactly the rows of that id, after which a second \<open>DELETE\<close> and a
  \<open>GET\<close> of the same id both answer 404.
\<close>

theorem delete_then_not_found:
  assumes "js_Number e param = Finite r" "online d"
  shows "if \<exists>x \<in> set (rows d). of_int (id' x) = r
         then fst (router_delete e d param) = Response 204 NoBody
            \<and> rows (snd (router_delete e d param)) = filter (\<lambda>x. of_int (id' x) \<noteq> r) (rows d)
            \<and> fst (router_delete e (snd (router_delete e d param)) param)
                = Response 404 (Message msg_not_found)
            \<and> fst (router_get_id e (snd (router_delete e d param)) param)
                = Response 404 (Message msg_not_found)
         else fst (router_delete e d param) = Response 404 (Message msg_not_found)
            \<and> rows (snd (router_delete e d param)) = rows d
            \<and> auto_increment (snd (router_delete e d param)) = auto_increment d"
proof -
  have nn: "\<not> isNaN (js_Number e param)"
    by (simp add: assms(1) isNaN_def)
  have m: "id_eq (js_Number e param) i \<longleftrightarrow> r = of_int i" for i
    by (simp add: assms(1) id_eq_def)
  show ?thesis
  proof (cases "\<exists>x \<in> set (rows d). of_int (id' x) = r")
    case True
    then have "filter (\<lambda>x. id_eq (js_Number e param) (id' x)) (rows d) \<noteq> []"
      by (auto simp: filter_empty_conv m)
    from delete_present [OF nn assms(2) this]
    have del: "router_delete e d param =
        (Response 204 NoBody,
         (issue DELETE (issue SELECT d))\<lparr>rows := filter (\<lambda>x. of_int (id' x) \<noteq> r) (rows d)\<rparr>)"
      (is "_ = (_, ?d2)")
      by (simp add: m eq_commute)
    have on: "online ?d2" using assms(2) by simp
    have gone: "filter (\<lambda>x. id_eq (js_Number e param) (id' x)) (rows ?d2) = []"
      by (auto simp: filter_empty_conv m)
    from True show ?thesis
      by (simp add: del delete_absent [OF nn on gone] get_absent [OF nn on gone])
  next
    case False
    then have "filter (\<lambda>x. id_eq (js_Number e param) (id' x)) (rows d) = []"
      by (auto simp: filter_empty_conv m)
    from False delete_absent [OF nn assms(2) this] show ?thesis
      by simp
  qed
qed

theorem delete_then_not_found_witness:
  "fst (router_delete reference_env ana_db ''1'') = Response 204 NoBody
   \<and> rows (snd (router_delete reference_env ana_db ''1'')) = []
   \<and> fst (router_delete reference_env (snd (router_delete reference_env ana_db ''1'')) ''1'')
       = Response 404 (Message msg_not_found)
   \<and> fst (router_get_id reference_env (snd (router_delete reference_env ana_db ''1'')) ''1'')
       = Response 404 (Message msg_not_found)
   \<and> fst (router_delete reference_env ana_db ''2'') = Response 404 (Message msg_not_found)
   \<and> rows (snd (router_delete reference_env ana_db ''2'')) = [ana_row]"
proof -
  have n1: "js_Number reference_env ''1'' = Finite 1" by code_simp
  have n2: "js_Number reference_env ''2'' = Finite 2" by code_simp
  have o: "online ana_db" by code_simp
  have r: "rows ana_db = [ana_row]" "id' ana_row = 1"
    by (simp_all add: ana_db_def ana_row_def)
  from delete_then_not_found [OF n1 o] delete_then_not_found [OF n2 o] show ?thesis
    by (simp add: r)
qed

text \<open>
  Claim C8, as the code has it. For an id parameter that \<open>Number\<close> reads as \<open>NaN\<close>,
  \<open>GET /:id\<close> and \<open>DELETE /:id\<close> answer 400 with the invalid-id message and issue no
  storage statement; \<open>PUT /:id\<close> answers 400 and issues none either, with the invalid-id
  message when the body passes validation (a body that does not is answered by the
  validation middleware first).
\<close>

theorem bad_id_is_400:
  assumes "isNaN (js_Number e param)"
  shows "router_get_id e d param = (Response 400 (Message msg_invalid_id), d)
       \<and> router_delete e d param = (Response 400 (Message msg_invalid_id), d)
       \<and> (\<exists>body. router_put e now d param reqBody = (Response 400 body, d))
       \<and> (\<forall>data. validateRequest e userUpdateSchema reqBody = Next data \<longrightarrow>
             router_put e now d param reqBody = (Response 400 (Message msg_invalid_id), d))"
proof -
  have put: "\<exists>body. router_put e now d param reqBody = (Response 400 body, d)"
  proof (cases "validateRequest e userUpdateSchema reqBody")
    case (Next data)
    with assms show ?thesis by (simp add: router_put_def)
  next
    case (Respond resp)
    from parseAsync_cases [of e userUpdateSchema reqBody] Respond
    obtain errs where "resp = Response 400 (ValidationError ''Validation error'' errs)"
      by (auto simp: validateRequest_def)
    with Respond show ?thesis by (simp add: router_put_def)
  qed
  with assms show ?thesis
    by (simp add: router_get_id_def router_delete_def router_put_def)
qed

theorem bad_id_is_400_witness:
  "router_get_id reference_env ana_db ''abc'' = (Response 400 (Message msg_invalid_id), ana_db)
   \<and> router_delete reference_env ana_db ''abc'' = (Response 400 (Message msg_invalid_id), ana_db)
   \<and> router_put reference_env 200 ana_db ''abc'' (JObj [(''name'', JStr ''Bia'')])
       = (Response 400 (Message msg_invalid_id), ana_db)"
proof -
  have n: "isNaN (js_Number reference_env ''abc'')" by code_simp
  have v: "validateRequest reference_env userUpdateSchema (JObj [(''name'', JStr ''Bia'')])
             = Next (JObj [(''name'', JStr ''Bia'')])"
    by code_simp
  from bad_id_is_400 [OF n, of ana_db 200 "JObj [(''name'', JStr ''Bia'')]"] v show ?thesis
    by blast
qed

text \<open>
  The claim as written fails: \<open>1.5\<close> is not an integer id, yet \<open>Number\<close> reads it as a
  number, so \<open>GET /1.5\<close> queries the table and answers 404, not 400.
\<close>

theorem get_fractional_id_is_404:
  "router_get_id reference_env ana_db ''1.5''
     = (Response 404 (Message msg_not_found), ana_db\<lparr>statements := [INSERT, SELECT]\<rparr>)"
  by code_simp

section \<open>The form's schema and the API's schema\<close>

lemma ok_avatar_form:
  "avatar_ok e v \<or> v = JStr [] \<Longrightarrow>
   parse e (ZUnion (ZOptional (ZString [Url m])) (ZLiteral [])) p v = (OK v, [])"
  by (cases v) (auto simp: avatar_ok_def)

lemma issues_avatar_form:
  "paths (snd (parse e (ZUnion (ZOptional (ZString [Url m])) (ZLiteral [])) [k] v))
     = (if avatar_ok e v \<or> v = JStr [] then [] else [k])"
  by (cases v) (auto simp: avatar_ok_def paths_def mk_issue_def)

lemma issues_avatar_form_opt:
  "paths (snd (parse e (ZOptional (ZUnion (ZOptional (ZString [Url m])) (ZLiteral []))) [k] v))
     = (if v \<noteq> JUndefined \<and> \<not> (avatar_ok e v \<or> v = JStr []) then [k] else [])"
  by (cases v) (auto simp: avatar_ok_def paths_def mk_issue_def)

lemma paths_userSchema_frontend:
  "paths (snd (parse_object e userSchema_frontend (JObj kvs)))
     = filter (\<lambda>k. \<not> form_ok e k (get_prop kvs k)) schema_keys"
  unfolding userSchema_frontend_def parse_object_JObj
  by (simp add: issues_name issues_email issues_avatar_form issues_role issues_status
      schema_keys_def field_ok_def form_ok_def del: parse.simps)

lemma paths_userUpdateSchema_frontend:
  "paths (snd (parse_object e userUpdateSchema_frontend (JObj kvs)))
     = filter (\<lambda>k. get_prop kvs k \<noteq> JUndefined \<and> \<not> form_ok e k (get_prop kvs k)) schema_keys"
  unfolding userUpdateSchema_frontend_def userSchema_frontend_def partial.simps parse_object_JObj
  by (simp add: issues_name_opt issues_email_opt issues_avatar_form_opt issues_role_opt
      issues_status_opt schema_keys_def field_ok_def form_ok_def del: parse.simps)

lemma parseAsync_form_valid:
  assumes ok: "name_ok (get_prop kvs ''name'')" "email_ok e (get_prop kvs ''email'')"
      "avatar_ok e (get_prop kvs ''avatar'') \<or> get_prop kvs ''avatar'' = JStr []"
      "role_ok (get_prop kvs ''role'')" "status_ok (get_prop kvs ''status'')"
  shows "parseAsync e userSchema_frontend (JObj kvs) = Inr (JObj (validated_create kvs))"
proof -
  have df: "get_prop kvs ''name'' \<noteq> JUndefined" "get_prop kvs ''email'' \<noteq> JUndefined"
    using ok by (auto simp: name_ok_def email_ok_def)
  show ?thesis
    unfolding parseAsync_def userSchema_frontend_def parse_object_JObj
    by (simp add: ok_name [OF ok(1)] ok_email [OF ok(2)] ok_avatar_form [OF ok(3)]
        ok_role [OF ok(4)] ok_status [OF ok(5)] df validated_create_def del: parse.simps)
qed

lemma opt_ok:
  assumes "v \<noteq> JUndefined \<Longrightarrow> parse e s p v = (OK v, [])"
  shows "parse e (ZOptional s) p v = (OK v, [])"
  using assms by simp

lemma opt_role:
  "role_ok v \<Longrightarrow>
   parse e (ZOptional (ZDefault (ZEnum [''admin'', ''user''] m) (JStr ''user''))) p v = (OK v, [])"
  by (auto simp: role_ok_def)

lemma opt_status:
  "status_ok v \<Longrightarrow>
   parse e (ZOptional (ZDefault (ZEnum [''active'', ''inactive''] m) (JStr ''active''))) p v
     = (OK v, [])"
  by (auto simp: status_ok_def)

lemma parseAsync_update_valid:
  assumes "update_violations e kvs = []"
  shows "parseAsync e userUpdateSchema (JObj kvs) = Inr (JObj (validated_update kvs))"
proof -
  from assms have ok:
      "get_prop kvs ''name'' \<noteq> JUndefined \<Longrightarrow> name_ok (get_prop kvs ''name'')"
      "get_prop kvs ''email'' \<noteq> JUndefined \<Longrightarrow> email_ok e (get_prop kvs ''email'')"
      "get_prop kvs ''avatar'' \<noteq> JUndefined \<Longrightarrow> avatar_ok e (get_prop kvs ''avatar'')"
      "role_ok (get_prop kvs ''role'')" "status_ok (get_prop kvs ''status'')"
    by (auto simp: update_violations_def schema_keys_def field_ok_def role_ok_def status_ok_def
        split: if_splits)
  show ?thesis
    unfolding parseAsync_def userUpdateSchema_def userSchema_def partial.simps parse_object_JObj
    by (simp add: opt_ok [OF ok_name [OF ok(1)]] opt_ok [OF ok_email [OF ok(2)]]
        opt_ok [OF ok_avatar [OF ok(3)]] opt_role [OF ok(4)] opt_status [OF ok(5)]
        validated_update_def schema_keys_def del: parse.simps)
qed

lemma parseAsync_update_form_valid:
  assumes ok:
      "get_prop kvs ''name'' \<noteq> JUndefined \<Longrightarrow> name_ok (get_prop kvs ''name'')"
      "get_prop kvs ''email'' \<noteq> JUndefined \<Longrightarrow> email_ok e (get_prop kvs ''email'')"
      "get_prop kvs ''avatar'' \<noteq> JUndefined \<Longrightarrow>
         avatar_ok e (get_prop kvs ''avatar'') \<or> get_prop kvs ''avatar'' = JStr []"
      "role_ok (get_prop kvs ''role'')" "status_ok (get_prop kvs ''status'')"
  shows "parseAsync e userUpdateSchema_frontend (JObj kvs) = Inr (JObj (validated_update kvs))"
  unfolding parseAsync_def userUpdateSchema_frontend_def userSchema_frontend_def partial.simps
    parse_object_JObj
  by (simp add: opt_ok [OF ok_name [OF ok(1)]] opt_ok [OF ok_email [OF ok(2)]]
      opt_ok [OF ok_avatar_form [OF ok(3)]] opt_role [OF ok(4)] opt_status [OF ok(5)]
      validated_update_def schema_keys_def del: parse.simps)

lemma create_violations_empty:
  "create_violations e kvs = [] \<longleftrightarrow> valid_create e kvs"
  by (auto simp: create_violations_def valid_create_def schema_keys_def field_ok_def)

lemma parseAsync_not_object:
  assumes "\<forall>kvs. d \<noteq> JObj kvs"
  shows "\<exists>iss. parseAsync e sch d = Inl (ZodError iss)"
proof -
  have "snd (parse_object e sch d) \<noteq> []"
    using assms by (cases sch; cases d) auto
  from parseAsync_issues [OF this] show ?thesis by blast
qed

text \<open>
  Claim C3, as the code has it. Each schema is a function of the payload alone. On
  every payload whose avatar is not the empty string, the schema of the form and the
  schema of the API agree, in their full and in their partial variant: both return the
  same normalized data, or both reject.
\<close>

theorem schemas_agree_off_empty_avatar:
  assumes "\<forall>kvs. d = JObj kvs \<longrightarrow> get_prop kvs ''avatar'' \<noteq> JStr []"
  shows "same_verdict (parseAsync e userSchema_frontend d) (parseAsync e userSchema d)
       \<and> same_verdict (parseAsync e userUpdateSchema_frontend d) (parseAsync e userUpdateSchema d)"
proof (cases "\<exists>kvs. d = JObj kvs")
  case False
  then have no: "\<forall>kvs. d \<noteq> JObj kvs" by simp
  from parseAsync_not_object [OF no, of e userSchema_frontend]
    parseAsync_not_object [OF no, of e userSchema]
    parseAsync_not_object [OF no, of e userUpdateSchema_frontend]
    parseAsync_not_object [OF no, of e userUpdateSchema]
  show ?thesis by (auto simp: same_verdict_def)
next
  case True
  then obtain kvs where d: "d = JObj kvs" by blast
  with assms have av: "get_prop kvs ''avatar'' \<noteq> JStr []" by simp
  have same: "form_ok e k (get_prop kvs k) = field_ok e k (get_prop kvs k)" for k
    using av by (auto simp: form_ok_def)
  have create: "same_verdict (parseAsync e userSchema_frontend d) (parseAsync e userSchema d)"
  proof (cases "valid_create e kvs")
    case True
    then have "parseAsync e userSchema_frontend (JObj kvs) = Inr (JObj (validated_create kvs))"
      by (intro parseAsync_form_valid) (simp_all add: valid_create_def)
    with True show ?thesis
      by (simp add: d parseAsync_userSchema_valid same_verdict_def)
  next
    case False
    then have v: "create_violations e kvs \<noteq> []"
      by (simp add: create_violations_empty)
    then have "snd (parse_object e userSchema (JObj kvs)) \<noteq> []"
      using paths_userSchema [of e kvs] by auto
    moreover have "snd (parse_object e userSchema_frontend (JObj kvs)) \<noteq> []"
      using v paths_userSchema_frontend [of e kvs] by (auto simp: same create_violations_def)
    ultimately show ?thesis
      by (simp add: d parseAsync_issues same_verdict_def)
  qed
  have update: "same_verdict (parseAsync e userUpdateSchema_frontend d) (parseAsync e userUpdateSchema d)"
  proof (cases "update_violations e kvs = []")
    case True
    then have ok:
      "get_prop kvs ''name'' \<noteq> JUndefined \<Longrightarrow> name_ok (get_prop kvs ''name'')"
      "get_prop kvs ''email'' \<noteq> JUndefined \<Longrightarrow> email_ok e (get_prop kvs ''email'')"
      "get_prop kvs ''avatar'' \<noteq> JUndefined \<Longrightarrow> avatar_ok e (get_prop kvs ''avatar'')"
      "role_ok (get_prop kvs ''role'')" "status_ok (get_prop kvs ''status'')"
      by (auto simp: update_violations_def schema_keys_def field_ok_def role_ok_def status_ok_def
          split: if_splits)
    have "parseAsync e userUpdateSchema_frontend (JObj kvs) = Inr (JObj (validated_update kvs))"
      using ok by (intro parseAsync_update_form_valid) simp_all
    with True show ?thesis
      by (simp add: d parseAsync_update_valid same_verdict_def)
  next
    case False
    then have "snd (parse_object e userUpdateSchema (JObj kvs)) \<noteq> []"
      using paths_userUpdateSchema [of e kvs] by auto
    moreover have "snd (parse_object e userUpdateSchema_frontend (JObj kvs)) \<noteq> []"
      using False paths_userUpdateSchema_frontend [of e kvs]
      by (auto simp: same update_violations_def)
    ultimately show ?thesis
      by (simp add: d parseAsync_issues same_verdict_def)
  qed
  from create update show ?thesis by simp
qed

theorem schemas_agree_off_empty_avatar_witness:
  "same_verdict (parseAsync reference_env userSchema_frontend (JObj ana))
                (parseAsync reference_env userSchema (JObj ana))
   \<and> same_verdict (parseAsync reference_env userUpdateSchema_frontend (JObj ana))
                  (parseAsync reference_env userUpdateSchema (JObj ana))"
proof -
  have "get_prop ana ''avatar'' \<noteq> JStr []" by code_simp
  then have "\<forall>kvs. JObj ana = JObj kvs \<longrightarrow> get_prop kvs ''avatar'' \<noteq> JStr []" by simp
  from schemas_agree_off_empty_avatar [OF this] show ?thesis .
qed

text \<open>
  The claim as written fails: the form's schema accepts a record whose avatar is the
  empty string, and the API's schema rejects the same record.
\<close>

theorem schemas_differ_on_empty_avatar:
  "parseAsync reference_env userSchema_frontend (JObj ana_form)
     = Inr (JObj [(''name'', JStr ''Ana Maria Silva''), (''email'', JStr ''ana@x.com''),
                  (''avatar'', JStr []), (''role'', JStr ''user''), (''status'', JStr ''active'')])
   \<and> parseAsync reference_env userSchema (JObj ana_form)
     = Inl (ZodError [ZIssue (invalid_string ''url'') [''avatar''] ''Avatar must be a valid URL''])"
  by code_simp

section \<open>Submitting the form\<close>

lemma get_validated_update:
  "k \<in> set schema_keys \<Longrightarrow> get_prop (validated_update kvs) k = get_prop kvs k"
  by (auto simp: validated_update_def schema_keys_def get_prop_def has_key_def
      split: option.splits)

lemma get_validated_update_other:
  "k \<notin> set schema_keys \<Longrightarrow> get_prop (validated_update kvs) k = JUndefined"
  by (auto simp: validated_update_def schema_keys_def get_prop_def has_key_def
      split: option.splits)

text \<open>
  Claim C9, as the code has it. When the form values pass the form's validation, the
  name is present and the avatar is absent or the empty string, the form calls the user
  service with the validated data in which the avatar is the template
  \<open>https://ui-avatars.com/api/?name=\<close> followed by the name with its first space
  replaced by \<open>+\<close>. The substitution is made on the validated data, after validation.
\<close>

theorem placeholder_after_validation:
  assumes av: "get_prop kvs ''avatar'' = JUndefined \<or> get_prop kvs ''avatar'' = JStr []"
    and nm: "name_ok (get_prop kvs ''name'')"
    and em: "if isEditMode
             then get_prop kvs ''email'' = JUndefined \<or> email_ok e (get_prop kvs ''email'')
             else email_ok e (get_prop kvs ''email'')"
    and ro: "role_ok (get_prop kvs ''role'')" and st: "status_ok (get_prop kvs ''status'')"
  shows "handleSubmit e isEditMode param (JObj kvs) =
     Calls ((if isEditMode then updateUser param else createUser)
       (JObj (set_prop (if isEditMode then validated_update kvs else validated_create kvs)
          ''avatar''
          (JStr (avatar_template
                 @ replace_first CHR '' '' CHR ''+'' (str (get_prop kvs ''name'')))))))"
proof -
  from nm obtain n where n: "get_prop kvs ''name'' = JStr n"
    by (auto simp: name_ok_def split: jsval.splits)
  show ?thesis
  proof (cases isEditMode)
    case False
    with em have "email_ok e (get_prop kvs ''email'')" by simp
    with nm av ro st
    have "parseAsync e userSchema_frontend (JObj kvs) = Inr (JObj (validated_create kvs))"
      by (intro parseAsync_form_valid) (auto simp: avatar_ok_def)
    with False av n show ?thesis
      by (auto simp: handleSubmit_def onSubmit_def get_validated_create str_def)
  next
    case True
    with em have "get_prop kvs ''email'' \<noteq> JUndefined \<Longrightarrow> email_ok e (get_prop kvs ''email'')"
      by auto
    with nm av ro st
    have "parseAsync e userUpdateSchema_frontend (JObj kvs) = Inr (JObj (validated_update kvs))"
      by (intro parseAsync_update_form_valid) (auto simp: avatar_ok_def)
    with True av n show ?thesis
      by (auto simp: handleSubmit_def onSubmit_def get_validated_update schema_keys_def str_def
          userUpdateSchema_frontend_def)
  qed
qed


theorem placeholder_after_validation_witness:
  "handleSubmit reference_env False [] (JObj ana_form) =
     Calls (createUser (JObj
       [(''name'', JStr ''Ana Maria Silva''), (''email'', JStr ''ana@x.com''),
        (''avatar'', JStr ''https://ui-avatars.com/api/?name=Ana+Maria Silva''),
        (''role'', JStr ''user''), (''status'', JStr ''active'')]))"
proof -
  have av: "get_prop ana_form ''avatar'' = JUndefined \<or> get_prop ana_form ''avatar'' = JStr []"
    by code_simp
  have nm: "name_ok (get_prop ana_form ''name'')" by code_simp
  have em: "if False
            then get_prop ana_form ''email'' = JUndefined
               \<or> email_ok reference_env (get_prop ana_form ''email'')
            else email_ok reference_env (get_prop ana_form ''email'')"
    by code_simp
  have ro: "role_ok (get_prop ana_form ''role'')" by code_simp
  have st: "status_ok (get_prop ana_form ''status'')" by code_simp
  have sent: "set_prop (validated_create ana_form) ''avatar''
      (JStr (avatar_template @ replace_first CHR '' '' CHR ''+'' (str (get_prop ana_form ''name''))))
    = [(''name'', JStr ''Ana Maria Silva''), (''email'', JStr ''ana@x.com''),
        (''avatar'', JStr ''https://ui-avatars.com/api/?name=Ana+Maria Silva''),
        (''role'', JStr ''user''), (''status'', JStr ''active'')]"
    by code_simp
  from placeholder_after_validation [OF av nm em ro st, of "[]"] show ?thesis
    by (simp add: sent)
qed

text \<open>
  The claim as written fails: validation runs first. A form with an empty avatar and
  an invalid email gets no placeholder and sends nothing; neither does a form whose
  avatar is blank, which the form's validation refuses.
\<close>

theorem no_placeholder_before_validation:
  "handleSubmit reference_env False [] (JObj [(''name'', JStr ''Ana Silva''),
       (''email'', JStr ''ana''), (''avatar'', JStr [])])
     = FieldErrors
         [ZIssue (invalid_string ''email'') [''email''] (''Email inv'' @ [CHR 0xE1] @ ''lido'')]
   \<and> handleSubmit reference_env False [] (JObj (ana @ [(''avatar'', JStr ''  '')]))
     = FieldErrors
         [ZIssue (invalid_string ''url'') [''avatar''] (''URL inv'' @ [CHR 0xE1] @ ''lida'')]"
  by code_simp

section \<open>Updating a user\<close>

lemma get_prop_set_prop:
  "get_prop (set_prop kvs k v) k' = (if k' = k then v else get_prop kvs k')"
  by (induction kvs) (auto simp: get_prop_def)

lemma update_rows_Inr:
  "update_rows e m f seen xs = Inr ys \<Longrightarrow>
   ys = seen @ map (\<lambda>x. if m x then (case f x of Inr x' \<Rightarrow> x' | Inl err \<Rightarrow> x) else x) xs
   \<and> (\<forall>x \<in> set xs. m x \<longrightarrow> (\<exists>x'. f x = Inr x'))"
proof (induction xs arbitrary: seen)
  case Nil
  then show ?case by simp
next
  case (Cons x xs)
  show ?case
  proof (cases "m x")
    case True
    with Cons.prems obtain x' where fx: "f x = Inr x'"
      and rec: "update_rows e m f (seen @ [x']) xs = Inr ys"
      by (auto split: sum.splits if_splits)
    from Cons.IH [OF rec] True fx show ?thesis by simp
  next
    case False
    with Cons.prems have rec: "update_rows e m f (seen @ [x]) xs = Inr ys" by simp
    from Cons.IH [OF rec] False show ?thesis by simp
  qed
qed

lemma update_row_validated:
  assumes "update_violations e kvs = []"
  shows "update_row now (set_prop (validated_update kvs) ''updatedAt'' (JDate now)) x
         = (if fits kvs then Inr (merge_fields kvs now x) else Inl (Coded ''ER_DATA_TOO_LONG''))"
proof -
  from assms have ok:
      "get_prop kvs ''name'' = JUndefined \<or> (\<exists>s. get_prop kvs ''name'' = JStr s)"
      "get_prop kvs ''email'' = JUndefined \<or> (\<exists>s. get_prop kvs ''email'' = JStr s)"
      "get_prop kvs ''avatar'' = JUndefined \<or> (\<exists>s. get_prop kvs ''avatar'' = JStr s)"
      "role_ok (get_prop kvs ''role'')" "status_ok (get_prop kvs ''status'')"
    by (auto simp: update_violations_def schema_keys_def field_ok_def role_ok_def status_ok_def
        name_ok_def email_ok_def avatar_ok_def split: if_splits jsval.splits)
  have g: "get_prop (set_prop (validated_update kvs) ''updatedAt'' (JDate now)) k =
      (if k = ''updatedAt'' then JDate now
       else if k \<in> set schema_keys then get_prop kvs k else JUndefined)" for k
    by (simp add: get_prop_set_prop get_validated_update get_validated_update_other)
  show ?thesis
    unfolding update_row_def assign_def g
    using ok
    by (auto simp: schema_keys_def col_int_def col_varchar_notnull_def col_varchar_def
        col_timestamp_def merge_fields_def fits_def short_def role_ok_def status_ok_def)
qed


lemma parseAsync_update_Inr:
  assumes "parseAsync e userUpdateSchema b = Inr v"
  shows "\<exists>kvs. b = JObj kvs \<and> update_violations e kvs = [] \<and> v = JObj (validated_update kvs)"
proof (cases "\<exists>kvs. b = JObj kvs")
  case False
  then have "\<forall>kvs. b \<noteq> JObj kvs" by simp
  from parseAsync_not_object [OF this, of e userUpdateSchema] assms show ?thesis by auto
next
  case True
  then obtain kvs where b: "b = JObj kvs" by blast
  show ?thesis
  proof (cases "update_violations e kvs = []")
    case True
    with assms b show ?thesis by (simp add: parseAsync_update_valid)
  next
    case False
    then have "snd (parse_object e userUpdateSchema (JObj kvs)) \<noteq> []"
      using paths_userUpdateSchema [of e kvs] by auto
    from parseAsync_issues [OF this] assms b show ?thesis by simp
  qed
qed

lemma parseAsync_create_Inr:
  assumes "parseAsync e userSchema b = Inr v"
  shows "\<exists>kvs. b = JObj kvs \<and> valid_create e kvs \<and> v = JObj (validated_create kvs)"
proof (cases "\<exists>kvs. b = JObj kvs")
  case False
  then have "\<forall>kvs. b \<noteq> JObj kvs" by simp
  from parseAsync_not_object [OF this, of e userSchema] assms show ?thesis by auto
next
  case True
  then obtain kvs where b: "b = JObj kvs" by blast
  show ?thesis
  proof (cases "valid_create e kvs")
    case True
    with assms b show ?thesis by (simp add: parseAsync_userSchema_valid)
  next
    case False
    then have "create_violations e kvs \<noteq> []"
      by (simp add: create_violations_empty)
    then have "snd (parse_object e userSchema (JObj kvs)) \<noteq> []"
      using paths_userSchema [of e kvs] by auto
    from parseAsync_issues [OF this] assms b show ?thesis by simp
  qed
qed

lemma validateRequest_Respond:
  "validateRequest e sch b = Respond r \<Longrightarrow> code r = 400 \<or> code r = 500"
  by (auto simp: validateRequest_def split: sum.splits thrown.splits)

lemma validateRequest_Next:
  "validateRequest e sch b = Next v \<longleftrightarrow> parseAsync e sch b = Inr v"
  by (auto simp: validateRequest_def split: sum.splits thrown.splits)

lemma catch_409_code: "code (catch_409 err) = 409 \<or> code (catch_409 err) = 500"
  by (simp add: catch_409_def)

lemma merge_fields_id [simp]: "id' (merge_fields kvs now x) = id' x"
  by (simp add: merge_fields_def)

lemma put_success:
  assumes "router_put e now d param b = (Response 200 body, d')"
  shows "\<exists>kvs x xs. b = JObj kvs \<and> update_violations e kvs = [] \<and> fits kvs \<and> online d
           \<and> filter (\<lambda>y. id_eq (js_Number e param) (id' y)) (rows d) = x # xs
           \<and> body = User (merge_fields kvs now x)
           \<and> rows d' = map (\<lambda>y. if id_eq (js_Number e param) (id' y)
                                   then merge_fields kvs now y else y) (rows d)
           \<and> auto_increment d' = auto_increment d"
proof (cases "validateRequest e userUpdateSchema b")
  case (Respond r)
  with assms validateRequest_Respond [OF Respond] show ?thesis
    by (auto simp: router_put_def)
next
  case (Next data)
  then have "parseAsync e userUpdateSchema b = Inr data"
    by (simp add: validateRequest_Next)
  from parseAsync_update_Inr [OF this]
  obtain kvs where b: "b = JObj kvs" and uv: "update_violations e kvs = []"
    and data: "data = JObj (validated_update kvs)"
    by blast
  let ?n = "js_Number e param"
  let ?m = "\<lambda>y. id_eq ?n (id' y)"
  let ?kvs' = "set_prop (validated_update kvs) ''updatedAt'' (JDate now)"
  let ?g = "\<lambda>y. if ?m y then merge_fields kvs now y else y"
  have nn: "\<not> isNaN ?n"
    using assms Next by (auto simp: router_put_def)
  have on: "online d"
  proof (rule ccontr)
    assume "\<not> online d"
    with assms Next nn catch_409_code [of "Coded ''ECONNREFUSED''"] show False
      by (auto simp: router_put_def db_select_where_def)
  qed
  from assms Next nn on obtain x xs where sel: "filter ?m (rows d) = x # xs"
    by (cases "filter ?m (rows d)") (auto simp: router_put_def select_where_online)
  have wu: "with_updatedAt data now = JObj ?kvs'"
    by (simp add: with_updatedAt_def data)
  have step: "router_put e now d param b =
      (case db_update e now (issue SELECT d) (JObj ?kvs') ?n of
         (Inl err, d2) \<Rightarrow> (catch_409 err, d2)
       | (Inr u, d2) \<Rightarrow>
           (case db_select_where d2 ?n of
              (Inl err, d3) \<Rightarrow> (catch_409 err, d3)
            | (Inr [], d3) \<Rightarrow> (Response 200 NoBody, d3)
            | (Inr (u # us), d3) \<Rightarrow> (Response 200 (User u), d3)))"
    using Next nn on sel by (simp add: router_put_def select_where_online wu Let_def)
  obtain rs where upd: "update_rows e ?m (update_row now ?kvs') [] (rows d) = Inr rs"
  proof (cases "update_rows e ?m (update_row now ?kvs') [] (rows d)")
    case (Inl err)
    with assms step on catch_409_code [of err] show ?thesis
      by (auto simp: db_update_def Let_def)
  next
    case (Inr rs)
    then show ?thesis by (rule that)
  qed
  from update_rows_Inr [OF upd]
  have rs: "rs = map (\<lambda>y. if ?m y then (case update_row now ?kvs' y of Inr y' \<Rightarrow> y' | Inl err \<Rightarrow> y)
                            else y) (rows d)"
    and all: "\<forall>y \<in> set (rows d). ?m y \<longrightarrow> (\<exists>y'. update_row now ?kvs' y = Inr y')"
    by simp_all
  from sel have "x \<in> set (filter ?m (rows d))" by simp
  then have xin: "x \<in> set (rows d)" and mx: "?m x" by simp_all
  with all obtain x' where "update_row now ?kvs' x = Inr x'" by blast
  then have fits: "fits kvs"
    by (simp add: update_row_validated [OF uv] split: if_splits)
  have rs': "rs = map ?g (rows d)"
    unfolding rs by (rule map_cong) (simp_all add: update_row_validated [OF uv] fits)
  have keep: "?m (?g y) = ?m y" for y by simp
  have "filter ?m rs = map ?g (filter ?m (rows d))"
    unfolding rs' by (simp add: filter_map comp_def keep)
  then have sel2: "filter ?m rs = merge_fields kvs now x # map ?g xs"
    using mx by (simp add: sel)
  from assms show ?thesis
    unfolding step
    using on upd sel2
    by (auto simp: db_update_def Let_def select_where_online b uv fits sel rs')
qed


text \<open>
  Claim C6, as the code has it. When a partial update succeeds, the row of that id
  takes the fields supplied in the payload and keeps every other one: its id, its
  \<open>createdAt\<close>, and each of name, email, avatar, role and status that the payload leaves
  out (role and status are not reset to their defaults). Its \<open>updatedAt\<close> is set to the
  clock reading of the update. The rows of other ids stay as they were.
\<close>

theorem partial_update_frame:
  assumes "router_put e now d param (JObj kvs) = (Response 200 body, d')"
  shows "\<exists>x \<in> set (rows d). \<exists>u'.
           id_eq (js_Number e param) (id' x) \<and> body = User u' \<and> u' = merge_fields kvs now x
         \<and> rows d' = map (\<lambda>y. if id_eq (js_Number e param) (id' y)
                                 then merge_fields kvs now y else y) (rows d)
         \<and> id' u' = id' x \<and> createdAt u' = createdAt x \<and> updatedAt u' = Some now
         \<and> (get_prop kvs ''name'' = JUndefined \<longrightarrow> name u' = name x)
         \<and> (get_prop kvs ''email'' = JUndefined \<longrightarrow> email u' = email x)
         \<and> (get_prop kvs ''avatar'' = JUndefined \<longrightarrow> avatar u' = avatar x)
         \<and> (get_prop kvs ''role'' = JUndefined \<longrightarrow> role u' = role x)
         \<and> (get_prop kvs ''status'' = JUndefined \<longrightarrow> status u' = status x)
         \<and> (\<forall>s. get_prop kvs ''name'' = JStr s \<longrightarrow> name u' = s)
         \<and> (\<forall>s. get_prop kvs ''email'' = JStr s \<longrightarrow> email u' = s)
         \<and> (\<forall>s. get_prop kvs ''avatar'' = JStr s \<longrightarrow> avatar u' = Some s)
         \<and> (\<forall>s. get_prop kvs ''role'' = JStr s \<longrightarrow> role u' = s)
         \<and> (\<forall>s. get_prop kvs ''status'' = JStr s \<longrightarrow> status u' = s)"
proof -
  from put_success [OF assms]
  obtain x xs where sel: "filter (\<lambda>y. id_eq (js_Number e param) (id' y)) (rows d) = x # xs"
    and body: "body = User (merge_fields kvs now x)"
    and rows: "rows d' = map (\<lambda>y. if id_eq (js_Number e param) (id' y)
                                   then merge_fields kvs now y else y) (rows d)"
    by auto
  from sel have "x \<in> set (filter (\<lambda>y. id_eq (js_Number e param) (id' y)) (rows d))" by simp
  then have "x \<in> set (rows d)" "id_eq (js_Number e param) (id' x)" by simp_all
  with body rows show ?thesis
    by (intro bexI [of _ x]) (simp_all add: merge_fields_def)
qed

theorem partial_update_frame_witness:
  "\<exists>x u'. x \<in> set (rows ana_db)
      \<and> fst (router_put reference_env 200 ana_db ''1'' (JObj bia_update)) = Response 200 (User u')
      \<and> name u' = ''Bia'' \<and> email u' = email x \<and> avatar u' = avatar x \<and> role u' = role x
      \<and> status u' = status x \<and> id' u' = id' x \<and> createdAt u' = createdAt x
      \<and> updatedAt u' = Some 200"
proof -
  have p: "router_put reference_env 200 ana_db ''1'' (JObj bia_update)
      = (Response 200 (User (ana_row\<lparr>name := ''Bia'', updatedAt := Some 200\<rparr>)),
         ana_db\<lparr>rows := [ana_row\<lparr>name := ''Bia'', updatedAt := Some 200\<rparr>],
                statements := [INSERT, SELECT, UPDATE, SELECT]\<rparr>)"
    by code_simp
  have g: "get_prop bia_update ''name'' = JStr ''Bia''"
      "get_prop bia_update ''email'' = JUndefined" "get_prop bia_update ''avatar'' = JUndefined"
      "get_prop bia_update ''role'' = JUndefined" "get_prop bia_update ''status'' = JUndefined"
    by code_simp+
  from partial_update_frame [OF p] obtain x u' where
    "x \<in> set (rows ana_db)" "User (ana_row\<lparr>name := ''Bia'', updatedAt := Some 200\<rparr>) = User u'"
    "id' u' = id' x" "createdAt u' = createdAt x" "updatedAt u' = Some 200"
    "name u' = ''Bia''" "email u' = email x" "avatar u' = avatar x" "role u' = role x"
    "status u' = status x"
    unfolding g by blast
  then show ?thesis
    unfolding p by (intro exI [of _ x] exI [of _ u']) simp
qed

text \<open>
  The claim as written fails: an update made at the clock reading at which the row
  was last written leaves \<open>updatedAt\<close> as it was, so it does not strictly increase.
\<close>

theorem put_at_the_same_clock_reading:
  "fst (router_put reference_env 100 ana_db ''1'' (JObj bia_update))
     = Response 200 (User (ana_row\<lparr>name := ''Bia''\<rparr>))
   \<and> updatedAt ana_row = Some 100
   \<and> updatedAt (ana_row\<lparr>name := ''Bia''\<rparr>) = Some 100"
  by code_simp

section \<open>What a request body can reach\<close>

lemma post_success:
  assumes "router_post e now d b = (Response 201 body, d')"
  shows "\<exists>kvs. b = JObj kvs \<and> valid_create e kvs \<and> fits kvs
           \<and> body = ReturningId (auto_increment d)
           \<and> rows d' = rows d @ [new_row now (auto_increment d) kvs]
           \<and> auto_increment d' = auto_increment d + 1"
proof (cases "validateRequest e userSchema b")
  case (Respond r)
  with assms validateRequest_Respond [OF Respond] show ?thesis
    by (auto simp: router_post_def)
next
  case (Next data)
  then have "parseAsync e userSchema b = Inr data"
    by (simp add: validateRequest_Next)
  from parseAsync_create_Inr [OF this]
  obtain kvs where b: "b = JObj kvs" and v: "valid_create e kvs"
    and data: "data = JObj (validated_create kvs)"
    by blast
  from assms have ins: "(case db_insert e now d (JObj (validated_create kvs)) of
        (Inl err, d1) \<Rightarrow> (catch_409 err, d1)
      | (Inr i, d1) \<Rightarrow> (Response 201 (ReturningId i), d1)) = (Response 201 body, d')"
    by (simp add: b router_post_valid [OF v])
  have c: "code (catch_409 err) \<noteq> 201" for err
    by (simp add: catch_409_def)
  from ins c show ?thesis
    by (auto simp: db_insert_def assign_validated_create [OF v] get_validated_create Let_def b v
        new_row_def issue_def
        split: if_splits dest: arg_cong [where f = code])
qed

text \<open>
  The storage layer itself would take a key from the object it is given: it is the
  validation that keeps the key out.
\<close>

lemma insert_takes_a_given_id:
  "fst (db_insert reference_env 100 empty_db (JObj (ana @ [(''id'', JNum 99)]))) = Inr 99"
  by code_simp

text \<open>
  Claim C10. The data that validation hands to the \<open>POST\<close> and \<open>PUT\<close> handlers is an
  object with no property outside name, email, avatar, role and status. So whatever
  the request body holds, a created row gets the next auto-increment key and the clock
  reading as both timestamps, and an update leaves the id and \<open>createdAt\<close> of every row
  as they were and gives a changed row the clock reading as \<open>updatedAt\<close>.
\<close>

theorem body_cannot_set_system_fields:
  "(\<forall>data. validateRequest e userSchema b = Next data \<longrightarrow>
      (\<exists>kvs'. data = JObj kvs' \<and> set (map fst kvs') \<subseteq> set schema_keys))
   \<and> (\<forall>data. validateRequest e userUpdateSchema b = Next data \<longrightarrow>
      (\<exists>kvs'. data = JObj kvs' \<and> set (map fst kvs') \<subseteq> set schema_keys))
   \<and> (\<forall>body d'. router_post e now d b = (Response 201 body, d') \<longrightarrow>
        body = ReturningId (auto_increment d)
      \<and> (\<exists>x. rows d' = rows d @ [x] \<and> id' x = auto_increment d
             \<and> createdAt x = Some now \<and> updatedAt x = Some now))
   \<and> (\<forall>body d'. router_put e now d param b = (Response 200 body, d') \<longrightarrow>
        map id' (rows d') = map id' (rows d)
      \<and> map createdAt (rows d') = map createdAt (rows d)
      \<and> (\<forall>y \<in> set (rows d'). y \<in> set (rows d) \<or> updatedAt y = Some now))"
proof (intro conjI allI impI)
  fix data assume "validateRequest e userSchema b = Next data"
  then have "parseAsync e userSchema b = Inr data" by (simp add: validateRequest_Next)
  from parseAsync_create_Inr [OF this]
  show "\<exists>kvs'. data = JObj kvs' \<and> set (map fst kvs') \<subseteq> set schema_keys"
    by (auto simp: validated_create_def schema_keys_def)
next
  fix data assume "validateRequest e userUpdateSchema b = Next data"
  then have "parseAsync e userUpdateSchema b = Inr data" by (simp add: validateRequest_Next)
  from parseAsync_update_Inr [OF this]
  show "\<exists>kvs'. data = JObj kvs' \<and> set (map fst kvs') \<subseteq> set schema_keys"
    by (auto simp: validated_update_def schema_keys_def split: if_splits)
next
  fix body d' assume p: "router_post e now d b = (Response 201 body, d')"
  from post_success [OF p] show "body = ReturningId (auto_increment d)" by blast
  from post_success [OF p]
  show "\<exists>x. rows d' = rows d @ [x] \<and> id' x = auto_increment d
           \<and> createdAt x = Some now \<and> updatedAt x = Some now"
    by (auto simp: new_row_def)
next
  fix body d' assume p: "router_put e now d param b = (Response 200 body, d')"
  from put_success [OF p] obtain kvs where
    rows: "rows d' = map (\<lambda>y. if id_eq (js_Number e param) (id' y)
                                then merge_fields kvs now y else y) (rows d)"
    by blast
  show "map id' (rows d') = map id' (rows d)"
    unfolding rows by (simp add: comp_def if_distrib [of id'] cong: if_cong)
  show "map createdAt (rows d') = map createdAt (rows d)"
    unfolding rows by (simp add: comp_def merge_fields_def if_distrib [of createdAt] cong: if_cong)
  show "\<forall>y \<in> set (rows d'). y \<in> set (rows d) \<or> updatedAt y = Some now"
    unfolding rows by (auto simp: merge_fields_def)
qed


theorem body_cannot_set_system_fields_witness:
  "(\<exists>kvs'. JObj ana = JObj kvs' \<and> set (map fst kvs') \<subseteq> set schema_keys)
   \<and> (\<exists>x. rows ana_db = rows empty_db @ [x] \<and> id' x = auto_increment empty_db
          \<and> createdAt x = Some 100 \<and> updatedAt x = Some 100)
   \<and> map id' [ana_row\<lparr>name := ''Bia'', updatedAt := Some 200\<rparr>] = map id' (rows ana_db)
   \<and> map createdAt [ana_row\<lparr>name := ''Bia'', updatedAt := Some 200\<rparr>]
       = map createdAt (rows ana_db)"
proof -
  have v: "validateRequest reference_env userSchema (JObj ana_forged) = Next (JObj ana)"
    by code_simp
  have p: "router_post reference_env 100 empty_db (JObj ana_forged)
      = (Response 201 (ReturningId 1), ana_db)"
    by code_simp
  have q: "router_put reference_env 200 ana_db ''1'' (JObj bia_forged)
      = (Response 200 (User (ana_row\<lparr>name := ''Bia'', updatedAt := Some 200\<rparr>)),
         ana_db\<lparr>rows := [ana_row\<lparr>name := ''Bia'', updatedAt := Some 200\<rparr>],
                statements := [INSERT, SELECT, UPDATE, SELECT]\<rparr>)"
    by code_simp
  from body_cannot_set_system_fields [of reference_env "JObj ana_forged" 100 empty_db]
  have a: "\<exists>kvs'. JObj ana = JObj kvs' \<and> set (map fst kvs') \<subseteq> set schema_keys"
    and b: "\<exists>x. rows ana_db = rows empty_db @ [x] \<and> id' x = auto_increment empty_db
          \<and> createdAt x = Some 100 \<and> updatedAt x = Some 100"
    using v p by blast+
  from body_cannot_set_system_fields [of reference_env "JObj bia_forged" 200 ana_db "''1''"] q
  have c: "map id' (rows (ana_db\<lparr>rows := [ana_row\<lparr>name := ''Bia'', updatedAt := Some 200\<rparr>],
                statements := [INSERT, SELECT, UPDATE, SELECT]\<rparr>)) = map id' (rows ana_db)"
    and d: "map createdAt (rows (ana_db\<lparr>rows := [ana_row\<lparr>name := ''Bia'', updatedAt := Some 200\<rparr>],
                statements := [INSERT, SELECT, UPDATE, SELECT]\<rparr>)) = map createdAt (rows ana_db)"
    by blast+
  from a b c d show ?thesis by simp
qed

section \<open>Conflicts and other failures of a create request\<close>

lemma post_outage:
  assumes "valid_create e kvs" "\<not> online d"
  shows "router_post e now d (JObj kvs) = (Response 500 (Message msg_internal), issue INSERT d)"
  using assms by (simp add: router_post_valid db_insert_def catch_409_def Let_def)

lemma post_too_long:
  assumes "valid_create e kvs" "\<not> fits kvs" "online d"
  shows "router_post e now d (JObj kvs) = (Response 500 (Message msg_internal), issue INSERT d)"
  using assms
  by (simp add: router_post_valid db_insert_def assign_validated_create catch_409_def Let_def)

lemma post_409_only_duplicate:
  assumes "code (fst (router_post e now d b)) = 409" "auto_increment d \<le> 2147483647"
  shows "online d \<and> (\<exists>kvs. b = JObj kvs \<and> valid_create e kvs \<and> fits kvs
           \<and> clash e (new_row now (auto_increment d) kvs) (rows d))"
proof (cases "validateRequest e userSchema b")
  case (Respond r)
  with assms validateRequest_Respond [OF Respond] show ?thesis
    by (auto simp: router_post_def)
next
  case (Next data)
  then have "parseAsync e userSchema b = Inr data"
    by (simp add: validateRequest_Next)
  from parseAsync_create_Inr [OF this]
  obtain kvs where b: "b = JObj kvs" and v: "valid_create e kvs"
    by blast
  have on: "online d"
  proof (rule ccontr)
    assume "\<not> online d"
    from post_outage [OF v this, of now] assms(1) show False by (simp add: b)
  qed
  have fits: "fits kvs"
  proof (rule ccontr)
    assume "\<not> fits kvs"
    from post_too_long [OF v this on, of now] assms(1) show False by (simp add: b)
  qed
  have "clash e (new_row now (auto_increment d) kvs) (rows d)"
  proof (rule ccontr)
    assume "\<not> clash e (new_row now (auto_increment d) kvs) (rows d)"
    from post_created [OF v fits on assms(2) this] assms(1) show False by (simp add: b)
  qed
  with on b v fits show ?thesis by blast
qed

text \<open>
  Claim C5, as the code has it. Of two valid create requests with the same email whose
  text values fit their columns, sent to a table that does not hold that email (the
  engine reachable, keys left for both), the first is answered 201 and the second 409
  with the message that the email already exists. The conflict is told apart from
  other failures: the same second request with the engine out of reach is answered with
  the generic 500, and whatever the body and the state, a 409 is answered only when
  the new row repeats a key of the table. Afterwards the table holds the rows it held,
  the row of the first request, and exactly one row with that email.
\<close>

theorem duplicate_email_conflict:
  assumes "valid_create e kvs1" "fits kvs1" "valid_create e kvs2" "fits kvs2"
    and same: "get_prop kvs2 ''email'' = get_prop kvs1 ''email''"
    and "online d" "auto_increment d < 2147483647"
    and ids: "\<forall>y \<in> set (rows d). id' y < auto_increment d"
    and fresh: "\<forall>y \<in> set (rows d).
                  collation e (email y) \<noteq> collation e (str (get_prop kvs1 ''email''))"
  shows "fst (router_post e t1 d (JObj kvs1)) = Response 201 (ReturningId (auto_increment d))
     \<and> fst (router_post e t2 (snd (router_post e t1 d (JObj kvs1))) (JObj kvs2))
         = Response 409 (Message msg_duplicate)
     \<and> fst (router_post e t2 (offline (snd (router_post e t1 d (JObj kvs1)))) (JObj kvs2))
         = Response 500 (Message msg_internal)
     \<and> (\<forall>b d0 t. auto_increment d0 \<le> 2147483647 \<and> code (fst (router_post e t d0 b)) = 409 \<longrightarrow>
           online d0 \<and> (\<exists>kvs. b = JObj kvs \<and> valid_create e kvs \<and> fits kvs
                           \<and> clash e (new_row t (auto_increment d0) kvs) (rows d0)))
     \<and> rows (snd (router_post e t2 (snd (router_post e t1 d (JObj kvs1))) (JObj kvs2)))
         = rows d @ [new_row t1 (auto_increment d) kvs1]
     \<and> length (filter (\<lambda>y. email y = str (get_prop kvs1 ''email''))
          (rows (snd (router_post e t2 (snd (router_post e t1 d (JObj kvs1))) (JObj kvs2))))) = 1"
proof -
  let ?x = "new_row t1 (auto_increment d) kvs1"
  let ?d1 = "d\<lparr>rows := rows d @ [?x], auto_increment := auto_increment d + 1,
                statements := statements d @ [INSERT]\<rparr>"
  have "\<not> clash e ?x (rows d)"
    using ids fresh by (rule no_clash)
  with assms have first: "router_post e t1 d (JObj kvs1)
      = (Response 201 (ReturningId (auto_increment d)), ?d1)"
    by (simp add: post_created)
  have "clash e (new_row t2 (auto_increment ?d1) kvs2) (rows ?d1)"
    using same by (simp add: clash_def new_row_def)
  with assms have second: "router_post e t2 ?d1 (JObj kvs2)
      = (Response 409 (Message msg_duplicate),
         ?d1\<lparr>auto_increment := auto_increment ?d1 + 1,
             statements := statements ?d1 @ [INSERT]\<rparr>)"
    by (intro post_conflict) simp_all
  have outage: "fst (router_post e t2 (offline ?d1) (JObj kvs2)) = Response 500 (Message msg_internal)"
    using assms(3) by (simp add: post_outage offline_def)
  have only: "\<forall>b d0 t. auto_increment d0 \<le> 2147483647 \<and> code (fst (router_post e t d0 b)) = 409 \<longrightarrow>
           online d0 \<and> (\<exists>kvs. b = JObj kvs \<and> valid_create e kvs \<and> fits kvs
                           \<and> clash e (new_row t (auto_increment d0) kvs) (rows d0))"
    using post_409_only_duplicate by blast
  have "filter (\<lambda>y. email y = str (get_prop kvs1 ''email'')) (rows d) = []"
    using fresh by (auto simp: filter_empty_conv)
  then have rest: "fst (router_post e t1 d (JObj kvs1)) = Response 201 (ReturningId (auto_increment d))
     \<and> fst (router_post e t2 (snd (router_post e t1 d (JObj kvs1))) (JObj kvs2))
         = Response 409 (Message msg_duplicate)
     \<and> rows (snd (router_post e t2 (snd (router_post e t1 d (JObj kvs1))) (JObj kvs2)))
         = rows d @ [new_row t1 (auto_increment d) kvs1]
     \<and> length (filter (\<lambda>y. email y = str (get_prop kvs1 ''email''))
          (rows (snd (router_post e t2 (snd (router_post e t1 d (JObj kvs1))) (JObj kvs2))))) = 1"
    by (simp add: first second) (simp add: new_row_def)
  from outage have outage': "fst (router_post e t2 (offline (snd (router_post e t1 d (JObj kvs1))))
      (JObj kvs2)) = Response 500 (Message msg_internal)"
    by (simp add: first)
  from rest outage' only show ?thesis by blast
qed

theorem duplicate_email_conflict_witness:
  "fst (router_post reference_env 100 empty_db (JObj ana)) = Response 201 (ReturningId 1)
   \<and> fst (router_post reference_env 150 ana_db (JObj ana_again))
       = Response 409 (Message msg_duplicate)
   \<and> fst (router_post reference_env 150 (offline ana_db) (JObj ana_again))
       = Response 500 (Message msg_internal)
   \<and> clash reference_env (new_row 150 2 ana_again) [ana_row]
   \<and> rows (snd (router_post reference_env 150 ana_db (JObj ana_again))) = [ana_row]
   \<and> length (filter (\<lambda>y. email y = ''ana@x.com'')
        (rows (snd (router_post reference_env 150 ana_db (JObj ana_again))))) = 1"
proof -
  have v1: "valid_create reference_env ana" by code_simp
  have f1: "fits ana" by code_simp
  have v2: "valid_create reference_env ana_again" by code_simp
  have f2: "fits ana_again" by code_simp
  have s: "get_prop ana_again ''email'' = get_prop ana ''email''" by code_simp
  have o: "online empty_db" by code_simp
  have a: "auto_increment empty_db < 2147483647" by code_simp
  have i: "\<forall>y \<in> set (rows empty_db). id' y < auto_increment empty_db"
    by (simp add: empty_db_def)
  have m: "\<forall>y \<in> set (rows empty_db).
      collation reference_env (email y) \<noteq> collation reference_env (str (get_prop ana ''email''))"
    by (simp add: empty_db_def)
  have p: "router_post reference_env 100 empty_db (JObj ana) = (Response 201 (ReturningId 1), ana_db)"
    by code_simp
  have r: "new_row 100 1 ana = ana_row" by code_simp
  have g: "str (get_prop ana ''email'') = ''ana@x.com''" by code_simp
  have e: "rows empty_db = []" "auto_increment empty_db = 1" by (simp_all add: empty_db_def)
  have h: "email ana_row = ''ana@x.com''" by (simp add: ana_row_def)
  have k: "auto_increment ana_db \<le> 2147483647" "auto_increment ana_db = 2" "rows ana_db = [ana_row]"
    by (simp_all add: ana_db_def)
  note T = duplicate_email_conflict [OF v1 f1 v2 f2 s o a i m, of 100 150]
  from T have main: "fst (router_post reference_env 100 empty_db (JObj ana)) = Response 201 (ReturningId 1)
   \<and> fst (router_post reference_env 150 ana_db (JObj ana_again))
       = Response 409 (Message msg_duplicate)
   \<and> fst (router_post reference_env 150 (offline ana_db) (JObj ana_again))
       = Response 500 (Message msg_internal)
   \<and> rows (snd (router_post reference_env 150 ana_db (JObj ana_again))) = [ana_row]
   \<and> length (filter (\<lambda>y. email y = ''ana@x.com'')
        (rows (snd (router_post reference_env 150 ana_db (JObj ana_again))))) = 1"
    by (simp add: p e r g h)
  then have c: "code (fst (router_post reference_env 150 ana_db (JObj ana_again))) = 409"
    by simp
  from T have "\<forall>b d0 t. auto_increment d0 \<le> 2147483647
        \<and> code (fst (router_post reference_env t d0 b)) = 409 \<longrightarrow>
           online d0 \<and> (\<exists>kvs. b = JObj kvs \<and> valid_create reference_env kvs \<and> fits kvs
                           \<and> clash reference_env (new_row t (auto_increment d0) kvs) (rows d0))"
    by blast
  with k(1) c have "\<exists>kvs. JObj ana_again = JObj kvs
      \<and> clash reference_env (new_row 150 (auto_increment ana_db) kvs) (rows ana_db)"
    by blast
  then have "clash reference_env (new_row 150 2 ana_again) [ana_row]"
    by (simp add: k)
  with main show ?thesis by blast
qed

text \<open>
  The claim as written fails: two valid create requests with the same email of 256
  characters are both answered with the generic 500, the first as well as the second,
  because the value does not fit the \<open>varchar(255)\<close> column; no row is stored.
\<close>

theorem long_email_pair_is_500_twice:
  "valid_create reference_env long_ana \<and> valid_create reference_env long_ana_again
   \<and> get_prop long_ana_again ''email'' = get_prop long_ana ''email''
   \<and> length long_email = 256
   \<and> router_post reference_env 100 empty_db (JObj long_ana)
       = (Response 500 (Message msg_internal), empty_db\<lparr>statements := [INSERT]\<rparr>)
   \<and> router_post reference_env 150 (empty_db\<lparr>statements := [INSERT]\<rparr>) (JObj long_ana_again)
       = (Response 500 (Message msg_internal), empty_db\<lparr>statements := [INSERT, INSERT]\<rparr>)"
  by code_simp


end
